theory Spec2Isabelle
  imports Complex_Main
begin

section \<open>Text: Python strings over the code points below 256\<close>

text \<open>
  A Python \<open>str\<close> is modelled as a \<open>string\<close>: the list of its code points, each below
  256.  The character classes below are those of CPython on that range.
\<close>

definition code :: "char \<Rightarrow> int" where
  "code c = of_char c"

text \<open>\<open>str.isspace\<close>, which is also what \<open>str.strip()\<close> removes and what \<open>\s\<close> matches.\<close>

definition isspace :: "char \<Rightarrow> bool" where
  "isspace c = (let n = code c in
     (9 \<le> n \<and> n \<le> 13) \<or> (28 \<le> n \<and> n \<le> 32) \<or> n = 133 \<or> n = 160)"

text \<open>The decimal digits \<open>0\<close> to \<open>9\<close> (what \<open>\d\<close> matches below 256).\<close>

definition isdigit :: "char \<Rightarrow> bool" where
  "isdigit c = (48 \<le> code c \<and> code c \<le> 57)"

text \<open>\<open>str.lower()\<close>, one code point at a time.\<close>

definition lower_char :: "char \<Rightarrow> char" where
  "lower_char c = (let n = code c in
     if (65 \<le> n \<and> n \<le> 90) \<or> (192 \<le> n \<and> n \<le> 222 \<and> n \<noteq> 215)
     then char_of (n + 32) else c)"

definition lower :: "string \<Rightarrow> string" where
  "lower s = map lower_char s"

text \<open>\<open>s.strip()\<close> and \<open>s.strip(ch)\<close>.\<close>

definition strip_where :: "(char \<Rightarrow> bool) \<Rightarrow> string \<Rightarrow> string" where
  "strip_where p s = rev (dropWhile p (rev (dropWhile p s)))"

definition strip :: "string \<Rightarrow> string" where
  "strip s = strip_where isspace s"

definition strip_char :: "char \<Rightarrow> string \<Rightarrow> string" where
  "strip_char ch s = strip_where (\<lambda>c. c = ch) s"

text \<open>\<open>s.split(sep)\<close> for a one-character separator: never an empty list.\<close>

fun split :: "char \<Rightarrow> string \<Rightarrow> string list" where
  "split sep [] = [[]]"
| "split sep (c # cs) =
     (if c = sep then [] # split sep cs
      else (case split sep cs of [] \<Rightarrow> [[c]] | p # ps \<Rightarrow> (c # p) # ps))"

text \<open>\<open>s.replace(ch, '')\<close>, \<open>s.endswith(ch)\<close> and \<open>sub in s\<close>.\<close>

definition remove_char :: "char \<Rightarrow> string \<Rightarrow> string" where
  "remove_char ch s = filter (\<lambda>c. c \<noteq> ch) s"

definition endswith :: "string \<Rightarrow> char \<Rightarrow> bool" where
  "endswith s ch = (s \<noteq> [] \<and> last s = ch)"

fun startswith :: "string \<Rightarrow> string \<Rightarrow> bool" where
  "startswith s [] = True"
| "startswith [] (p # ps) = False"
| "startswith (c # cs) (p # ps) = (c = p \<and> startswith cs ps)"

fun contains :: "string \<Rightarrow> string \<Rightarrow> bool" where
  "contains [] sub = (sub = [])"
| "contains (c # cs) sub = (startswith (c # cs) sub \<or> contains cs sub)"


section \<open>Python floats\<close>

text \<open>
  A \<open>float\<close> is an IEEE 754 binary64 value: \<open>Finite m e\<close> is \<open>m * 2 ^ e\<close>,
  \<open>Infinite neg\<close> is the infinity of that sign.  The sign of zero is dropped, which
  \<open>int()\<close> does not see.
\<close>

datatype pyfloat = Finite int int | Infinite bool | NaN

text \<open>
  The exceptions that occur: those of the built-ins, the validation error of the record
  class, the plain \<open>Exception(message)\<close> that \<open>_fetch_page\<close> raises, and a failure of the
  HTTP client (connection, timeout) with its message.
\<close>

datatype error =
    ValueError
  | TypeError
  | OverflowError
  | ValidationError
  | Exception string
  | ClientError string

function bitlen :: "int \<Rightarrow> int" where
  "bitlen n = (if n \<le> 0 then 0 else 1 + bitlen (n div 2))"
  by pat_completeness auto
termination
  by (relation "measure nat") auto

declare bitlen.simps [simp del]

text \<open>\<open>floor_log2 a b\<close> is the integer part of the binary logarithm of \<open>a / b\<close>.\<close>

definition floor_log2 :: "int \<Rightarrow> int \<Rightarrow> int" where
  "floor_log2 a b =
     (let d = bitlen a - bitlen b in
      if (if 0 \<le> d then b * 2 ^ nat d \<le> a else b \<le> a * 2 ^ nat (- d)) then d else d - 1)"

text \<open>\<open>a / b\<close> rounded to the nearest integer, ties to the even one.\<close>

definition round_half_even :: "int \<Rightarrow> int \<Rightarrow> int" where
  "round_half_even a b =
     (let q = a div b; r = a mod b in
      if 2 * r < b then q else if b < 2 * r then q + 1
      else if even q then q else q + 1)"

text \<open>
  The binary64 value nearest to \<open>a / b\<close> with the given sign: 53 significant bits,
  exponents from \<open>-1022\<close> (below: subnormal) to \<open>1023\<close> (above: infinity).
\<close>

definition round_binary64 :: "bool \<Rightarrow> int \<Rightarrow> int \<Rightarrow> pyfloat" where
  "round_binary64 neg a b =
     (if a = 0 then Finite 0 0
      else
        let e = max (floor_log2 a b) (- 1022);
            x = e - 52;
            m = (if 0 \<le> x then round_half_even a (b * 2 ^ nat x)
                 else round_half_even (a * 2 ^ nat (- x)) b)
        in if 1023 < e \<or> (e = 1023 \<and> 2 ^ 53 \<le> m) then Infinite neg
           else Finite (if neg then - m else m) x)"

text \<open>\<open>f * k\<close> for a float \<open>f\<close> and a positive \<open>int\<close> \<open>k\<close> that a float holds exactly.\<close>

fun float_mul :: "pyfloat \<Rightarrow> int \<Rightarrow> pyfloat" where
  "float_mul (Finite m e) k =
     (if 0 \<le> e then round_binary64 (m < 0) (\<bar>m\<bar> * k * 2 ^ nat e) 1
      else round_binary64 (m < 0) (\<bar>m\<bar> * k) (2 ^ nat (- e)))"
| "float_mul (Infinite neg) k = Infinite neg"
| "float_mul NaN k = NaN"

text \<open>\<open>int(f)\<close>: truncation towards zero; infinities and NaN raise.\<close>

fun py_int :: "pyfloat \<Rightarrow> error + int" where
  "py_int (Finite m e) =
     Inr (if 0 \<le> e then m * 2 ^ nat e else sgn m * (\<bar>m\<bar> div 2 ^ nat (- e)))"
| "py_int (Infinite neg) = Inl OverflowError"
| "py_int NaN = Inl ValueError"

text \<open>
  The float of an \<open>int\<close>, which is what \<open>f * k\<close> first makes of an \<open>int\<close> \<open>k\<close> of any size:
  the nearest float, and \<open>OverflowError\<close> when that is beyond the largest float.
\<close>

definition float_of_int :: "int \<Rightarrow> error + pyfloat" where
  "float_of_int k =
     (case round_binary64 (k < 0) \<bar>k\<bar> 1 of
        Finite m e \<Rightarrow> Inr (Finite m e)
      | Infinite neg \<Rightarrow> Inl OverflowError
      | NaN \<Rightarrow> Inr NaN)"

text \<open>
  \<open>f * g\<close> for two floats: the exact product rounded, an infinity when it is too large;
  zero times an infinity is NaN.  No product of two floats raises.
\<close>

fun float_times :: "pyfloat \<Rightarrow> pyfloat \<Rightarrow> pyfloat" where
  "float_times (Finite m1 e1) (Finite m2 e2) =
     (let neg = ((m1 < 0) \<noteq> (m2 < 0)); a = \<bar>m1\<bar> * \<bar>m2\<bar>; e = e1 + e2
      in if 0 \<le> e then round_binary64 neg (a * 2 ^ nat e) 1
         else round_binary64 neg a (2 ^ nat (- e)))"
| "float_times (Finite m e) (Infinite neg) =
     (if m = 0 then NaN else Infinite ((m < 0) \<noteq> neg))"
| "float_times (Infinite neg) (Finite m e) =
     (if m = 0 then NaN else Infinite (neg \<noteq> (m < 0)))"
| "float_times (Infinite neg1) (Infinite neg2) = Infinite (neg1 \<noteq> neg2)"
| "float_times NaN g = NaN"
| "float_times (Finite m e) NaN = NaN"
| "float_times (Infinite neg) NaN = NaN"

subsection \<open>\<open>float(text)\<close>\<close>

text \<open>
  CPython first maps a white-space code point above 127 to a blank and any other code
  point above 127 to \<open>?\<close>; it accepts underscores between two digits only, strips the
  white space of C (\<open>\t\n\v\f\r\<close> and the blank), and reads a sign followed by
  \<open>inf\<close>, \<open>infinity\<close>, \<open>nan\<close> or a decimal number with an optional exponent, in any
  letter case.  The whole text must be used.
\<close>

definition to_ascii :: "char \<Rightarrow> char" where
  "to_ascii c = (if code c \<le> 127 then c else if isspace c then CHR '' '' else CHR ''?'')"

definition c_isspace :: "char \<Rightarrow> bool" where
  "c_isspace c = ((9 \<le> code c \<and> code c \<le> 13) \<or> code c = 32)"

fun underscores_ok :: "char \<Rightarrow> string \<Rightarrow> bool" where
  "underscores_ok prev [] = (prev \<noteq> CHR ''_'')"
| "underscores_ok prev (c # cs) =
     ((if c = CHR ''_'' then isdigit prev else if prev = CHR ''_'' then isdigit c else True)
      \<and> underscores_ok c cs)"

definition digits_value :: "string \<Rightarrow> int" where
  "digits_value s = foldl (\<lambda>n c. 10 * n + (code c - 48)) 0 s"

text \<open>The sign in front of a text: whether it is negative, and the rest.\<close>

fun take_sign :: "string \<Rightarrow> bool \<times> string" where
  "take_sign [] = (False, [])"
| "take_sign (c # cs) =
     (if c = CHR ''-'' then (True, cs) else if c = CHR ''+'' then (False, cs)
      else (False, c # cs))"

text \<open>The exponent part: empty, or \<open>e\<close>, a sign and at least one digit.\<close>

fun parse_exponent :: "string \<Rightarrow> int option" where
  "parse_exponent [] = Some 0"
| "parse_exponent (c # cs) =
     (if c = CHR ''e'' then
        (let (neg, ds) = take_sign cs in
         if ds \<noteq> [] \<and> list_all isdigit ds
         then Some (if neg then - digits_value ds else digits_value ds)
         else None)
      else None)"

text \<open>An unsigned decimal number: \<open>Some (n, x)\<close> stands for \<open>n * 10 ^ x\<close>.\<close>

definition parse_decimal :: "string \<Rightarrow> (int \<times> int) option" where
  "parse_decimal s =
     (let ip = takeWhile isdigit s;
          r1 = dropWhile isdigit s;
          (fp, r2) = (case r1 of
                        [] \<Rightarrow> ([], [])
                      | c # r \<Rightarrow> if c = CHR ''.''
                                 then (takeWhile isdigit r, dropWhile isdigit r)
                                 else ([], r1))
      in if ip = [] \<and> fp = [] then None
         else (case parse_exponent r2 of
                 None \<Rightarrow> None
               | Some x \<Rightarrow> Some (digits_value (ip @ fp), x - int (length fp))))"

definition decimal_to_float :: "bool \<Rightarrow> int \<Rightarrow> int \<Rightarrow> pyfloat" where
  "decimal_to_float neg n x =
     (if 0 \<le> x then round_binary64 neg (n * 10 ^ nat x) 1
      else round_binary64 neg n (10 ^ nat (- x)))"

definition py_float :: "string \<Rightarrow> error + pyfloat" where
  "py_float text =
     (let s = map to_ascii text in
      if \<not> underscores_ok (CHR 0x00) s then Inl ValueError
      else
        let s = lower (strip_where c_isspace (remove_char (CHR ''_'') s));
            (neg, body) = take_sign s
        in if body = ''inf'' \<or> body = ''infinity'' then Inr (Infinite neg)
           else if body = ''nan'' then Inr NaN
           else (case parse_decimal body of
                   None \<Rightarrow> Inl ValueError
                 | Some (n, x) \<Rightarrow> Inr (decimal_to_float neg n x)))"


section \<open>The number parser\<close>

text \<open>
  \<open>GitHubTrendingCrawler._parse_number\<close>.  The \<open>try\<close> block catches \<open>ValueError\<close> and
  \<open>TypeError\<close> only; any other exception leaves the function.
\<close>

definition parse_number :: "string \<Rightarrow> error + int" where
  "parse_number text =
     (if text = [] then Inr 0
      else
        let text = remove_char (CHR '','') text;
            text = lower text;
            (multiplier, text) =
               (if endswith text (CHR ''k'') then (1000, butlast text)
                else if endswith text (CHR ''m'') then (1000000, butlast text)
                else (1, text))
        in case (case py_float text of
                   Inl e \<Rightarrow> Inl e
                 | Inr f \<Rightarrow> py_int (float_mul f multiplier)) of
             Inl ValueError \<Rightarrow> Inr 0
           | Inl TypeError \<Rightarrow> Inr 0
           | Inl e \<Rightarrow> Inl e
           | Inr number \<Rightarrow> Inr number)"


section \<open>Regular expressions\<close>

text \<open>
  The fragment of \<open>re\<close> that the crawler's two patterns use, with the matching order of a
  backtracking engine: \<open>rmatch r s\<close> lists what is left of \<open>s\<close> after each way of matching
  \<open>r\<close> at its start, the preferred way first (greedy repetition).
\<close>

datatype regex =
    Eps
  | Lit char
  | Class "char \<Rightarrow> bool"
  | Seq regex regex
  | Opt regex
  | Star regex

definition Plus :: "regex \<Rightarrow> regex" where
  "Plus r = Seq r (Star r)"

fun Lits :: "string \<Rightarrow> regex \<Rightarrow> regex" where
  "Lits [] r = r"
| "Lits (c # cs) r = Seq (Lit c) (Lits cs r)"

function rmatch :: "regex \<Rightarrow> string \<Rightarrow> string list" where
  "rmatch Eps s = [s]"
| "rmatch (Lit c) s = (case s of [] \<Rightarrow> [] | x # xs \<Rightarrow> if x = c then [xs] else [])"
| "rmatch (Class p) s = (case s of [] \<Rightarrow> [] | x # xs \<Rightarrow> if p x then [xs] else [])"
| "rmatch (Seq a b) s = concat (map (\<lambda>r. rmatch b r) (rmatch a s))"
| "rmatch (Opt a) s = rmatch a s @ [s]"
| "rmatch (Star a) s =
     concat (map (\<lambda>r. if length r < length s then rmatch (Star a) r else [])
                 (rmatch a s)) @ [s]"
  by pat_completeness auto
termination
  by (relation "inv_image (less_than <*lex*> less_than) (\<lambda>(r, s). (size r, length s))") auto

declare rmatch.simps(6) [simp del]

text \<open>
  \<open>re.search\<close> for a pattern \<open>pre (grp) post\<close> with one group: the leftmost start at
  which the pattern matches, the preferred match there, and the text of the group.
\<close>

definition match_group :: "regex \<Rightarrow> regex \<Rightarrow> regex \<Rightarrow> string \<Rightarrow> string list" where
  "match_group pre grp post s =
     concat (map (\<lambda>r0.
       concat (map (\<lambda>r1.
         map (\<lambda>r2. take (length r0 - length r1) r0) (rmatch post r1))
       (rmatch grp r0)))
     (rmatch pre s))"

fun re_search :: "regex \<Rightarrow> regex \<Rightarrow> regex \<Rightarrow> string \<Rightarrow> string option" where
  "re_search pre grp post [] =
     (case match_group pre grp post [] of [] \<Rightarrow> None | g # gs \<Rightarrow> Some g)"
| "re_search pre grp post (c # cs) =
     (case match_group pre grp post (c # cs) of
        [] \<Rightarrow> re_search pre grp post cs
      | g # gs \<Rightarrow> Some g)"


section \<open>The parsed document\<close>

text \<open>
  What \<open>BeautifulSoup\<close> builds: a tag has a name, its \<open>class\<close> attribute as the list of
  the class names, its other attributes, and its contents; a string is either text or
  a comment (which \<open>get_text\<close> leaves out).
\<close>

datatype node =
    Tag string "string list" "(string \<times> string) list" "node list"
  | NavigableString string
  | Comment string

text \<open>
  An element of a document is a node together with what comes before it in document
  order, nearest first (what \<open>find_previous\<close> walks through).
\<close>

type_synonym element = "node list \<times> node"

fun flatten :: "node list \<Rightarrow> node list" where
  "flatten [] = []"
| "flatten (Tag nm cl ats kids # ns) = Tag nm cl ats kids # flatten kids @ flatten ns"
| "flatten (NavigableString t # ns) = NavigableString t # flatten ns"
| "flatten (Comment t # ns) = Comment t # flatten ns"

fun walk :: "node list \<Rightarrow> node list \<Rightarrow> element list" where
  "walk prev [] = []"
| "walk prev (Tag nm cl ats kids # ns) =
     (prev, Tag nm cl ats kids)
       # walk (Tag nm cl ats kids # prev) kids
       @ walk (rev (flatten kids) @ Tag nm cl ats kids # prev) ns"
| "walk prev (NavigableString t # ns) =
     (prev, NavigableString t) # walk (NavigableString t # prev) ns"
| "walk prev (Comment t # ns) = (prev, Comment t) # walk (Comment t # prev) ns"

text \<open>\<open>soup.descendants\<close> and \<open>tag.descendants\<close>, in document order.\<close>

definition soup_descendants :: "node list \<Rightarrow> element list" where
  "soup_descendants doc = walk [] doc"

fun descendants :: "element \<Rightarrow> element list" where
  "descendants (prev, Tag nm cl ats kids) = walk (Tag nm cl ats kids # prev) kids"
| "descendants (prev, NavigableString t) = []"
| "descendants (prev, Comment t) = []"

fun join_blank :: "string list \<Rightarrow> string" where
  "join_blank [] = []"
| "join_blank [c] = c"
| "join_blank (c # d # cs) = c @ '' '' @ join_blank (d # cs)"

text \<open>
  The filters of \<open>find\<close> and \<open>find_all\<close>: the tag name; \<open>class_=c\<close>, which holds when
  one of the class names is \<open>c\<close> or the whole attribute is; \<open>attr=v\<close>.
\<close>

fun is_tag :: "string \<Rightarrow> node \<Rightarrow> bool" where
  "is_tag name (Tag nm cl ats kids) = (nm = name)"
| "is_tag name (NavigableString t) = False"
| "is_tag name (Comment t) = False"

fun has_class :: "string \<Rightarrow> node \<Rightarrow> bool" where
  "has_class c (Tag nm cl ats kids) = (c \<in> set cl \<or> join_blank cl = c)"
| "has_class c (NavigableString t) = False"
| "has_class c (Comment t) = False"

fun has_attr :: "string \<Rightarrow> string \<Rightarrow> node \<Rightarrow> bool" where
  "has_attr k v (Tag nm cl ats kids) = (map_of ats k = Some v)"
| "has_attr k v (NavigableString t) = False"
| "has_attr k v (Comment t) = False"

definition find_all :: "element list \<Rightarrow> (node \<Rightarrow> bool) \<Rightarrow> element list" where
  "find_all scope p = filter (\<lambda>e. p (snd e)) scope"

definition find_first :: "element list \<Rightarrow> (node \<Rightarrow> bool) \<Rightarrow> element option" where
  "find_first scope p = (case find_all scope p of [] \<Rightarrow> None | e # es \<Rightarrow> Some e)"

text \<open>\<open>tag.find_previous(...)\<close>: the nearest earlier node that passes the filter.\<close>

fun find_previous :: "element \<Rightarrow> (node \<Rightarrow> bool) \<Rightarrow> node option" where
  "find_previous (prev, n) p = List.find p prev"

text \<open>\<open>tag.get(key)\<close>, which is \<open>None\<close> without the attribute.\<close>

fun get_attr :: "node \<Rightarrow> string \<Rightarrow> string option" where
  "get_attr (Tag nm cl ats kids) k = map_of ats k"
| "get_attr (NavigableString t) k = None"
| "get_attr (Comment t) k = None"

text \<open>
  \<open>tag.get_text(strip=True)\<close>: every text below the tag, stripped, the empty ones
  dropped, joined without a separator.
\<close>

fun stripped_strings :: "node list \<Rightarrow> string list" where
  "stripped_strings [] = []"
| "stripped_strings (NavigableString t # ns) =
     (if strip t = [] then stripped_strings ns else strip t # stripped_strings ns)"
| "stripped_strings (n # ns) = stripped_strings ns"

definition get_text :: "element \<Rightarrow> string" where
  "get_text e = concat (stripped_strings (map snd (descendants e)))"


section \<open>Configuration, library and the outside world\<close>

text \<open>
  The fields of \<open>Settings\<close> that the crawler reads; the three delays are floats, in
  seconds.
\<close>

record settings =
  github_base_url :: string
  github_trending_url :: string
  request_timeout :: int
  max_retries :: int
  request_delay :: pyfloat
  min_delay :: pyfloat
  max_delay :: pyfloat

record response =
  status :: int
  body :: string
  headers :: "(string \<times> string) list"

text \<open>
  What the crawler calls outside this repository, taken as parameters:
  \<open>urllib.parse.urljoin\<close>; the validation of an \<open>HttpUrl\<close> field (\<open>None\<close> when it
  rejects the text); the HTML parser; the clock; \<open>random.choice\<close> and \<open>random.uniform\<close>,
  indexed by the number of random values drawn before; and the HTTP client, indexed by
  the number of requests sent before, which answers a URL and an optional
  \<open>User-Agent\<close> with a response or fails.
\<close>

record library =
  urljoin :: "string \<Rightarrow> string \<Rightarrow> string"
  HttpUrl :: "string \<Rightarrow> string option"
  BeautifulSoup :: "string \<Rightarrow> node list"
  datetime_now :: nat
  random_choice :: "nat \<Rightarrow> string list \<Rightarrow> string"
  random_uniform :: "nat \<Rightarrow> pyfloat \<Rightarrow> pyfloat \<Rightarrow> pyfloat"
  session_get :: "nat \<Rightarrow> string \<Rightarrow> string option \<Rightarrow> error + response"

text \<open>
  The effects of a run, in order: every \<open>asyncio.sleep\<close> with its duration and every
  request with its URL and \<open>User-Agent\<close>; and how many random values and requests
  there were.  Time itself is not modelled: a sleep is an entry of the trace, whatever
  its duration.
\<close>

datatype event = Sleep pyfloat | Get string "string option"

record world =
  trace :: "event list"
  draws :: nat
  requests :: nat


section \<open>Extraction\<close>

definition digits_group :: regex where
  "digits_group =
     Seq (Plus (Class isdigit)) (Star (Seq (Lit (CHR '','')) (Plus (Class isdigit))))"

definition stars_today_tail :: regex where
  "stars_today_tail =
     Seq (Plus (Class isspace))
       (Lits ''star'' (Seq (Opt (Lit (CHR ''s'')))
         (Seq (Plus (Class isspace)) (Lits ''today'' Eps))))"

definition background_color_head :: regex where
  "background_color_head = Lits ''background-color:'' (Star (Class isspace))"

definition not_semicolon :: regex where
  "not_semicolon = Plus (Class (\<lambda>c. c \<noteq> CHR '';''))"

text \<open>\<open>tag.get(key, '')\<close>.\<close>

definition get_or_empty :: "node \<Rightarrow> string \<Rightarrow> string" where
  "get_or_empty n k = (case get_attr n k of None \<Rightarrow> [] | Some v \<Rightarrow> v)"

text \<open>\<open>_parse_stats\<close>: the loop over the links, then the pair.\<close>

fun parse_stats_links :: "element list \<Rightarrow> int \<Rightarrow> int \<Rightarrow> error + int \<times> int" where
  "parse_stats_links [] s f = Inr (s, f)"
| "parse_stats_links (link # links) s f =
     (let href = get_or_empty (snd link) ''href'';
          text = get_text link
      in if contains href ''/stargazers'' then
           (case parse_number text of
              Inl e \<Rightarrow> Inl e
            | Inr n \<Rightarrow> parse_stats_links links n f)
         else if contains href ''/forks'' then
           (case parse_number text of
              Inl e \<Rightarrow> Inl e
            | Inr n \<Rightarrow> parse_stats_links links s n)
         else parse_stats_links links s f)"

definition stat_links :: "element \<Rightarrow> element list" where
  "stat_links article =
     find_all (descendants article) (\<lambda>n. is_tag ''a'' n \<and> has_class ''Link--muted'' n)"

definition parse_stats :: "element \<Rightarrow> error + int \<times> int" where
  "parse_stats article = parse_stats_links (stat_links article) 0 0"

text \<open>\<open>_parse_stars_today\<close>.\<close>

definition parse_stars_today :: "element \<Rightarrow> error + int" where
  "parse_stars_today article =
     (case find_first (descendants article)
             (\<lambda>n. is_tag ''span'' n \<and> has_class ''d-inline-block float-sm-right'' n) of
        None \<Rightarrow> Inr 0
      | Some star_element \<Rightarrow>
          (let text = get_text star_element in
           case re_search Eps digits_group stars_today_tail text of
             None \<Rightarrow> Inr 0
           | Some group1 \<Rightarrow> parse_number group1))"

text \<open>\<open>_parse_avatar_url\<close>.\<close>

definition parse_avatar_url :: "library \<Rightarrow> settings \<Rightarrow> element \<Rightarrow> string option" where
  "parse_avatar_url lib cfg article =
     (case find_first (descendants article)
             (\<lambda>n. is_tag ''img'' n \<and> has_class ''avatar'' n) of
        None \<Rightarrow> None
      | Some img_element \<Rightarrow>
          (case get_attr (snd img_element) ''src'' of
             None \<Rightarrow> None
           | Some src \<Rightarrow>
               if src \<noteq> [] then Some (urljoin lib (github_base_url cfg) src) else None))"

text \<open>The description and the language blocks of \<open>_parse_single_repository\<close>.\<close>

definition parse_description :: "element \<Rightarrow> string option" where
  "parse_description article =
     (case find_first (descendants article)
             (\<lambda>n. is_tag ''p'' n \<and> has_class ''col-9'' n) of
        None \<Rightarrow> None
      | Some desc_element \<Rightarrow> Some (get_text desc_element))"

definition parse_language :: "element \<Rightarrow> string option \<times> string option" where
  "parse_language article =
     (case find_first (descendants article)
             (\<lambda>n. is_tag ''span'' n \<and> has_attr ''itemprop'' ''programmingLanguage'' n) of
        None \<Rightarrow> (None, None)
      | Some lang_element \<Rightarrow>
          (Some (get_text lang_element),
           (case find_previous lang_element
                   (\<lambda>n. is_tag ''span'' n \<and> has_class ''repo-language-color'' n) of
              None \<Rightarrow> None
            | Some color_element \<Rightarrow>
                (case re_search background_color_head not_semicolon Eps
                        (get_or_empty color_element ''style'') of
                   None \<Rightarrow> None
                 | Some group1 \<Rightarrow> Some (strip group1)))))"

text \<open>The record class \<open>TrendingRepository\<close>; creating one validates its two URLs.\<close>

record TrendingRepository =
  name :: string
  url :: string
  description :: "string option"
  stars :: int
  forks :: int
  language :: "string option"
  language_color :: "string option"
  stars_today :: int
  period_stars :: int
  owner :: string
  repo_name :: string
  avatar_url :: "string option"
  crawled_at :: nat

definition validate :: "library \<Rightarrow> TrendingRepository \<Rightarrow> error + TrendingRepository" where
  "validate lib r =
     (case HttpUrl lib (url r) of
        None \<Rightarrow> Inl ValidationError
      | Some u \<Rightarrow>
          (case avatar_url r of
             None \<Rightarrow> Inr (r\<lparr>url := u\<rparr>)
           | Some a \<Rightarrow>
               (case HttpUrl lib a of
                  None \<Rightarrow> Inl ValidationError
                | Some a' \<Rightarrow> Inr (r\<lparr>url := u, avatar_url := Some a'\<rparr>))))"

text \<open>
  The title link of an article, as the first lines of \<open>_parse_single_repository\<close> read
  it: the \<open>href\<close> of the first \<open>a\<close> in the first \<open>h2\<close> of class \<open>h3 lh-condensed\<close>,
  stripped.  \<open>None\<close> is each of the early \<open>return None\<close>.
\<close>

definition title_path :: "element \<Rightarrow> string option" where
  "title_path article =
     (case find_first (descendants article)
             (\<lambda>n. is_tag ''h2'' n \<and> has_class ''h3 lh-condensed'' n) of
        None \<Rightarrow> None
      | Some title_element \<Rightarrow>
          (case find_first (descendants title_element) (is_tag ''a'') of
             None \<Rightarrow> None
           | Some link_element \<Rightarrow>
               (let repo_path = strip (get_or_empty (snd link_element) ''href'') in
                if repo_path = [] then None else Some repo_path)))"

text \<open>The body of the \<open>try\<close> block of \<open>_parse_single_repository\<close>.\<close>

definition parse_single_repository_body ::
  "library \<Rightarrow> settings \<Rightarrow> element \<Rightarrow> error + TrendingRepository option" where
  "parse_single_repository_body lib cfg article =
     (case title_path article of
        None \<Rightarrow> Inr None
      | Some repo_path \<Rightarrow>
          (let repo_url = urljoin lib (github_base_url cfg) repo_path;
               repo_nm = strip_char (CHR ''/'') repo_path;
               parts = split (CHR ''/'') repo_nm
           in if length parts \<noteq> 2 then Inr None
              else
                (let desc = parse_description article;
                     (lang, lang_color) = parse_language article
                 in case parse_stats article of
                      Inl e \<Rightarrow> Inl e
                    | Inr (stars_n, forks_n) \<Rightarrow>
                        (case parse_stars_today article of
                           Inl e \<Rightarrow> Inl e
                         | Inr today \<Rightarrow>
                             (case validate lib
                                     \<lparr>name = repo_nm, url = repo_url, description = desc,
                                      stars = stars_n, forks = forks_n, language = lang,
                                      language_color = lang_color, stars_today = today,
                                      period_stars = today, owner = parts ! 0,
                                      repo_name = parts ! 1,
                                      avatar_url = parse_avatar_url lib cfg article,
                                      crawled_at = datetime_now lib\<rparr> of
                                Inl e \<Rightarrow> Inl e
                              | Inr r \<Rightarrow> Inr (Some r))))))"

text \<open>
  \<open>_parse_single_repository\<close>: \<open>except Exception\<close> turns every exception of the body
  into \<open>None\<close>.
\<close>

definition parse_single_repository ::
  "library \<Rightarrow> settings \<Rightarrow> element \<Rightarrow> TrendingRepository option" where
  "parse_single_repository lib cfg article =
     (case parse_single_repository_body lib cfg article of
        Inl e \<Rightarrow> None
      | Inr r \<Rightarrow> r)"

text \<open>
  \<open>_parse_repositories\<close> on the parsed document: the articles in document order, each
  record appended when there is one.
\<close>

definition repo_articles :: "node list \<Rightarrow> element list" where
  "repo_articles soup =
     find_all (soup_descendants soup) (\<lambda>n. is_tag ''article'' n \<and> has_class ''Box-row'' n)"

fun parse_articles ::
  "library \<Rightarrow> settings \<Rightarrow> element list \<Rightarrow> TrendingRepository list \<Rightarrow> TrendingRepository list"
  where
  "parse_articles lib cfg [] repositories = repositories"
| "parse_articles lib cfg (article # articles) repositories =
     (case parse_single_repository lib cfg article of
        None \<Rightarrow> parse_articles lib cfg articles repositories
      | Some repo_data \<Rightarrow> parse_articles lib cfg articles (repositories @ [repo_data]))"

definition parse_soup :: "library \<Rightarrow> settings \<Rightarrow> node list \<Rightarrow> TrendingRepository list" where
  "parse_soup lib cfg soup =
     (if repo_articles soup = [] then []
      else parse_articles lib cfg (repo_articles soup) [])"

definition parse_repositories :: "library \<Rightarrow> settings \<Rightarrow> string \<Rightarrow> TrendingRepository list" where
  "parse_repositories lib cfg html_content = parse_soup lib cfg (BeautifulSoup lib html_content)"


section \<open>Fetching\<close>

text \<open>\<open>str(n)\<close> for an \<open>int\<close>, as the f-strings format a status.\<close>

function str_digits :: "int \<Rightarrow> string" where
  "str_digits n =
     (if n < 10 then [char_of (48 + n)]
      else str_digits (n div 10) @ [char_of (48 + n mod 10)])"
  by pat_completeness auto
termination
  by (relation "measure nat") auto

declare str_digits.simps [simp del]

definition str_int :: "int \<Rightarrow> string" where
  "str_int n = (if n < 0 then CHR ''-'' # str_digits (- n) else str_digits n)"

text \<open>\<open>str(e)\<close> for an exception: its message.\<close>

fun str_error :: "error \<Rightarrow> string" where
  "str_error (Exception msg) = msg"
| "str_error (ClientError msg) = msg"
| "str_error e = []"

definition user_agents :: "string list" where
  "user_agents =
     [''Mozilla/5.0 (Macintosh; Intel Mac OS X 10_15_7) AppleWebKit/537.36 (KHTML, like Gecko) Chrome/120.0.0.0 Safari/537.36'',
      ''Mozilla/5.0 (Windows NT 10.0; Win64; x64) AppleWebKit/537.36 (KHTML, like Gecko) Chrome/120.0.0.0 Safari/537.36'',
      ''Mozilla/5.0 (Macintosh; Intel Mac OS X 10_15_7) AppleWebKit/605.1.15 (KHTML, like Gecko) Version/17.1 Safari/605.1.15'',
      ''Mozilla/5.0 (Windows NT 10.0; Win64; x64; rv:109.0) Gecko/20100101 Firefox/121.0'',
      ''Mozilla/5.0 (X11; Linux x86_64) AppleWebKit/537.36 (KHTML, like Gecko) Chrome/120.0.0.0 Safari/537.36'']"

text \<open>\<open>_build_url\<close>; \<open>None\<close> and the empty text are both no language.\<close>

definition build_url :: "settings \<Rightarrow> string option \<Rightarrow> string \<Rightarrow> string" where
  "build_url cfg lang since =
     (let u = github_trending_url cfg;
          u = (case lang of
                 None \<Rightarrow> u
               | Some l \<Rightarrow> if l \<noteq> [] then u @ ''/'' @ lower l else u)
      in u @ ''?since='' @ since)"

text \<open>
  \<open>_fetch_page\<close>: a random \<open>User-Agent\<close>, a random pause, one request; any status but
  200 raises.
\<close>

definition fetch_page :: "library \<Rightarrow> settings \<Rightarrow> string \<Rightarrow> world \<Rightarrow> (error + string) \<times> world" where
  "fetch_page lib cfg u w =
     (let user_agent = random_choice lib (draws w) user_agents;
          delay = random_uniform lib (draws w + 1) (min_delay cfg) (max_delay cfg);
          w1 = w\<lparr>trace := trace w @ [Sleep delay, Get u (Some user_agent)],
                 draws := draws w + 2,
                 requests := requests w + 1\<rparr>
      in case session_get lib (requests w) u (Some user_agent) of
           Inl e \<Rightarrow> (Inl e, w1)
         | Inr resp \<Rightarrow>
             if status resp \<noteq> 200
             then (Inl (Exception (''HTTP '' @ str_int (status resp) @ '': '' @ body resp)), w1)
             else (Inr (body resp), w1))"

text \<open>The slice \<open>repositories[:limit]\<close> under its guard \<open>limit and len(repositories) > limit\<close>.\<close>

definition apply_limit :: "int \<Rightarrow> 'a list \<Rightarrow> 'a list" where
  "apply_limit limit repositories =
     (if limit \<noteq> 0 \<and> int (length repositories) > limit
      then (if 0 \<le> limit then take (nat limit) repositories
            else take (nat (int (length repositories) + limit)) repositories)
      else repositories)"

text \<open>
  \<open>self.delay * (2 ** attempt)\<close>: the power is an \<open>int\<close>, which the product turns into a
  float first, and that raises from \<open>2 ** 1024\<close> on.
\<close>

definition base_delay :: "settings \<Rightarrow> nat \<Rightarrow> error + pyfloat" where
  "base_delay cfg attempt =
     (case float_of_int (2 ^ attempt) of
        Inl e \<Rightarrow> Inl e
      | Inr scale \<Rightarrow> Inr (float_times (request_delay cfg) scale))"

text \<open>
  The loop of \<open>fetch_trending\<close> from the attempt \<open>attempt\<close> on; past the last attempt it
  reaches the \<open>return []\<close> below the loop.  An exception raised inside the \<open>except\<close>
  block, before the sleep, leaves the function.
\<close>

function fetch_attempts ::
  "library \<Rightarrow> settings \<Rightarrow> string \<Rightarrow> int \<Rightarrow> nat \<Rightarrow> world
     \<Rightarrow> (error + TrendingRepository list) \<times> world" where
  "fetch_attempts lib cfg u limit attempt w =
     (if int attempt < max_retries cfg then
        (case fetch_page lib cfg u w of
           (Inr html_content, w1) \<Rightarrow>
             (Inr (apply_limit limit (parse_repositories lib cfg html_content)), w1)
         | (Inl e, w1) \<Rightarrow>
             if int attempt < max_retries cfg - 1 then
               (case base_delay cfg attempt of
                  Inl overflow \<Rightarrow> (Inl overflow, w1)
                | Inr base \<Rightarrow>
                    (let jitter = random_uniform lib (draws w1) (Finite 1 (- 1)) (Finite 3 (- 1));
                         retry_delay = float_times base jitter;
                         w2 = w1\<lparr>trace := trace w1 @ [Sleep retry_delay],
                                  draws := draws w1 + 1\<rparr>
                     in fetch_attempts lib cfg u limit (attempt + 1) w2))
             else (Inl e, w1))
      else (Inr [], w))"
  by pat_completeness auto
termination
  by (relation "measure (\<lambda>(lib, cfg, u, limit, attempt, w). nat (max_retries cfg) - attempt)")
     auto

declare fetch_attempts.simps [simp del]

definition fetch_trending ::
  "library \<Rightarrow> settings \<Rightarrow> string option \<Rightarrow> string \<Rightarrow> int \<Rightarrow> world
     \<Rightarrow> (error + TrendingRepository list) \<times> world" where
  "fetch_trending lib cfg lang since limit w =
     fetch_attempts lib cfg (build_url cfg lang since) limit 0 w"

text \<open>
  \<open>health_check\<close>: one request to the base address, without a \<open>User-Agent\<close> of its own;
  the result is the dictionary, as its items.
\<close>

datatype pyvalue = Str string | Bool bool | PyNone

definition header_get :: "response \<Rightarrow> string \<Rightarrow> string option" where
  "header_get resp k = map_of (map (\<lambda>(h, v). (lower h, v)) (headers resp)) (lower k)"

definition health_check :: "library \<Rightarrow> settings \<Rightarrow> world \<Rightarrow> (string \<times> pyvalue) list \<times> world" where
  "health_check lib cfg w =
     (let w1 = w\<lparr>trace := trace w @ [Get (github_base_url cfg) None],
                 requests := requests w + 1\<rparr>
      in case session_get lib (requests w) (github_base_url cfg) None of
           Inr resp \<Rightarrow>
             if status resp = 200
             then ([(''status'', Str ''healthy''),
                    (''github_accessible'', Bool True),
                    (''response_time'',
                       (case header_get resp ''X-Response-Time'' of
                          None \<Rightarrow> PyNone
                        | Some v \<Rightarrow> Str v))], w1)
             else ([(''status'', Str ''unhealthy''),
                    (''github_accessible'', Bool False),
                    (''error'', Str (''HTTP '' @ str_int (status resp)))], w1)
         | Inl e \<Rightarrow>
             ([(''status'', Str ''unhealthy''),
               (''github_accessible'', Bool False),
               (''error'', Str (str_error e))], w1))"


section \<open>Notions of the statements\<close>

text \<open>
  An entry is well formed, in the words of the specification, when it has a title link
  whose path resolves to exactly two segments; the failures of an entry that the
  specification names are a missing title link and a malformed path.
\<close>

definition well_formed :: "element \<Rightarrow> bool" where
  "well_formed article =
     (case title_path article of
        None \<Rightarrow> False
      | Some repo_path \<Rightarrow> length (split (CHR ''/'') (strip_char (CHR ''/'') repo_path)) = 2)"

text \<open>
  The links of an entry that decide its star count and its fork count: \<open>_parse_stats\<close>
  takes a link to \<open>/stargazers\<close> for the stars, and any other link to \<open>/forks\<close> for the
  forks.
\<close>

definition stargazers_links :: "element \<Rightarrow> element list" where
  "stargazers_links article =
     filter (\<lambda>link. contains (get_or_empty (snd link) ''href'') ''/stargazers'')
       (stat_links article)"

definition forks_links :: "element \<Rightarrow> element list" where
  "forks_links article =
     filter (\<lambda>link. \<not> contains (get_or_empty (snd link) ''href'') ''/stargazers'' \<and>
                     contains (get_or_empty (snd link) ''href'') ''/forks'')
       (stat_links article)"

text \<open>The element of the counter of the period, when the entry has one.\<close>

definition counter_element :: "element \<Rightarrow> element option" where
  "counter_element article =
     find_first (descendants article)
       (\<lambda>n. is_tag ''span'' n \<and> has_class ''d-inline-block float-sm-right'' n)"

text \<open>
  What \<open>_parse_number\<close> hands to \<open>float\<close>: the text without its commas, in lower case,
  and without a trailing \<open>k\<close> or \<open>m\<close>.  The text is unparseable when \<open>float\<close> rejects this.
\<close>

definition float_argument :: "string \<Rightarrow> string" where
  "float_argument text =
     (let s = lower (remove_char (CHR '','') text)
      in if endswith s (CHR ''k'') \<or> endswith s (CHR ''m'') then butlast s else s)"

definition unparseable :: "string \<Rightarrow> bool" where
  "unparseable text = isl (py_float (float_argument text))"

text \<open>A float that is not below zero, and the characters that a pattern can consume.\<close>

fun nonneg :: "pyfloat \<Rightarrow> bool" where
  "nonneg (Finite m e) = (0 \<le> m)"
| "nonneg (Infinite neg) = (\<not> neg)"
| "nonneg NaN = True"

fun regex_chars :: "regex \<Rightarrow> char set" where
  "regex_chars Eps = {}"
| "regex_chars (Lit c) = {c}"
| "regex_chars (Class p) = {c. p c}"
| "regex_chars (Seq a b) = regex_chars a \<union> regex_chars b"
| "regex_chars (Opt a) = regex_chars a"
| "regex_chars (Star a) = regex_chars a"


text \<open>The number that a finite float stands for, and truncation towards zero.\<close>

definition float_value :: "int \<Rightarrow> int \<Rightarrow> rat" where
  "float_value m e = (if 0 \<le> e then of_int m * 2 ^ nat e else of_int m / 2 ^ nat (- e))"

definition truncate :: "rat \<Rightarrow> int" where
  "truncate q = (if 0 \<le> q then \<lfloor>q\<rfloor> else \<lceil>q\<rceil>)"

text \<open>
  The reference definition of the number parser, in the words of section 4.1 of the
  specification and in exact arithmetic.  The thousands separators are stripped.  A
  trailing \<open>k\<close> or \<open>m\<close>, in either case, is the factor 1,000 or 1,000,000; otherwise the
  factor is 1.  What remains is to be a decimal numeral, that is digits, optionally
  followed by a point and more digits; anything else (the empty text, a non-numeric
  remainder) is a parse failure and gives 0.  The numeral times the factor is truncated
  to an integer, not rounded.
\<close>

definition spec_suffix :: "string \<Rightarrow> int \<times> string" where
  "spec_suffix s =
     (if s \<noteq> [] \<and> (last s = CHR ''k'' \<or> last s = CHR ''K'') then (1000, butlast s)
      else if s \<noteq> [] \<and> (last s = CHR ''m'' \<or> last s = CHR ''M'') then (1000000, butlast s)
      else (1, s))"

definition spec_numeral :: "string \<Rightarrow> rat option" where
  "spec_numeral s =
     (let ip = takeWhile isdigit s; rest = dropWhile isdigit s
      in if ip = [] then None
         else (case rest of
                 [] \<Rightarrow> Some (of_int (digits_value ip))
               | c # fp \<Rightarrow>
                   if c = CHR ''.'' \<and> fp \<noteq> [] \<and> list_all isdigit fp
                   then Some (of_int (digits_value (ip @ fp)) / 10 ^ length fp)
                   else None))"

definition spec_parse :: "string \<Rightarrow> int" where
  "spec_parse text =
     (let (factor, numeral) = spec_suffix (remove_char (CHR '','') text)
      in case spec_numeral numeral of
           None \<Rightarrow> 0
         | Some v \<Rightarrow> truncate (v * of_int factor))"


section \<open>Example inputs\<close>

text \<open>
  A library whose HTML parser returns a given document and whose HTTP client answers the
  request number \<open>k\<close> with \<open>answers k\<close>; joining a base address and an absolute path is
  concatenation, every URL validates unchanged, and the random values are the first
  agent and the lower bound.
\<close>

definition example_lib :: "node list \<Rightarrow> (nat \<Rightarrow> error + response) \<Rightarrow> library" where
  "example_lib soup answers =
     \<lparr>urljoin = (\<lambda>base path. base @ path),
      HttpUrl = (\<lambda>u. Some u),
      BeautifulSoup = (\<lambda>html. soup),
      datetime_now = 0,
      random_choice = (\<lambda>k xs. ''agent''),
      random_uniform = (\<lambda>k a b. a),
      session_get = (\<lambda>k u ua. answers k)\<rparr>"

definition example_cfg :: settings where
  "example_cfg =
     \<lparr>github_base_url = ''h:'', github_trending_url = ''h:/t'', request_timeout = 30,
      max_retries = 3, request_delay = Finite 5 0, min_delay = Finite 3 0,
      max_delay = Finite 8 0\<rparr>"

text \<open>The same with 1026 attempts and no delay between them.\<close>

definition patient_cfg :: settings where
  "patient_cfg = example_cfg\<lparr>max_retries := 1026, request_delay := Finite 0 0\<rparr>"

definition world0 :: world where
  "world0 = \<lparr>trace = [], draws = 0, requests = 0\<rparr>"

definition timeout :: "nat \<Rightarrow> error + response" where
  "timeout k = Inl (ClientError ''timeout'')"


text \<open>An article with the title link \<open>path\<close> and the given other contents.\<close>

definition entry :: "string \<Rightarrow> node list \<Rightarrow> node" where
  "entry path others =
     Tag ''article'' [''Box-row''] []
       (Tag ''h2'' [''h3'', ''lh-condensed''] [] [Tag ''a'' [] [(''href'', path)] []] # others)"

definition stargazers :: "string \<Rightarrow> node" where
  "stargazers counter =
     Tag ''a'' [''Link--muted''] [(''href'', ''/a/b/stargazers'')] [NavigableString counter]"

definition today :: "string \<Rightarrow> node" where
  "today counter =
     Tag ''span'' [''d-inline-block'', ''float-sm-right''] []
       [Tag ''svg'' [''octicon''] [] [], NavigableString counter]"

text \<open>The record of \<open>own/short\<close> with \<open>n\<close> stars in all and \<open>t\<close> in the period.\<close>

definition record_of :: "string \<Rightarrow> string \<Rightarrow> int \<Rightarrow> int \<Rightarrow> TrendingRepository" where
  "record_of own short n t =
     \<lparr>name = own @ ''/'' @ short, url = ''h:/'' @ own @ ''/'' @ short, description = None,
      stars = n, forks = 0, language = None, language_color = None, stars_today = t,
      period_stars = t, owner = own, repo_name = short, avatar_url = None,
      crawled_at = 0\<rparr>"


section \<open>Properties of the extraction\<close>

lemma parse_articles_eq:
  "parse_articles lib cfg as acc = acc @ List.map_filter (parse_single_repository lib cfg) as"
  by (induction as arbitrary: acc) (auto simp: List.map_filter_simps split: option.splits)

lemma parse_soup_eq:
  "parse_soup lib cfg soup = List.map_filter (parse_single_repository lib cfg) (repo_articles soup)"
  by (simp add: parse_soup_def parse_articles_eq List.map_filter_simps)

lemma in_parse_soup:
  "r \<in> set (parse_soup lib cfg soup) \<longleftrightarrow>
     (\<exists>a \<in> set (repo_articles soup). parse_single_repository lib cfg a = Some r)"
  by (force simp: parse_soup_eq List.map_filter_def image_iff)

lemma validate_fields:
  assumes "validate lib r0 = Inr r"
  shows "name r = name r0" "stars r = stars r0" "forks r = forks r0"
    "stars_today r = stars_today r0" "period_stars r = period_stars r0"
    "owner r = owner r0" "repo_name r = repo_name r0"
    "HttpUrl lib (url r0) = Some (url r)"
  using assms by (auto simp: validate_def split: option.splits)

text \<open>What a record says about the article it was read from.\<close>

lemma parse_single_SomeD:
  assumes "parse_single_repository lib cfg a = Some r"
  shows "\<exists>path s f t.
           title_path a = Some path \<and>
           split (CHR ''/'') (strip_char (CHR ''/'') path) = [owner r, repo_name r] \<and>
           name r = strip_char (CHR ''/'') path \<and>
           HttpUrl lib (urljoin lib (github_base_url cfg) path) = Some (url r) \<and>
           parse_stats a = Inr (s, f) \<and> stars r = s \<and> forks r = f \<and>
           parse_stars_today a = Inr t \<and> stars_today r = t \<and> period_stars r = t"
proof -
  from assms obtain path where p: "title_path a = Some path"
    by (auto simp: parse_single_repository_def parse_single_repository_body_def
        split: option.splits sum.splits)
  let ?nm = "strip_char (CHR ''/'') path"
  let ?parts = "split (CHR ''/'') ?nm"
  from assms p have len: "length ?parts = 2"
    by (auto simp: parse_single_repository_def parse_single_repository_body_def Let_def
        split: option.splits sum.splits if_splits)
  from assms p len obtain s f where st: "parse_stats a = Inr (s, f)"
    by (auto simp: parse_single_repository_def parse_single_repository_body_def Let_def
        split: option.splits sum.splits if_splits prod.splits)
  from assms p len st obtain t where td: "parse_stars_today a = Inr t"
    by (auto simp: parse_single_repository_def parse_single_repository_body_def Let_def
        split: option.splits sum.splits if_splits prod.splits)
  from assms p len st td obtain r0 where
    v: "validate lib r0 = Inr r" and
    r0: "name r0 = ?nm" "url r0 = urljoin lib (github_base_url cfg) path"
      "stars r0 = s" "forks r0 = f" "stars_today r0 = t" "period_stars r0 = t"
      "owner r0 = ?parts ! 0" "repo_name r0 = ?parts ! 1"
    by (auto simp: parse_single_repository_def parse_single_repository_body_def Let_def
        split: option.splits sum.splits if_splits prod.splits)
  from len have parts: "?parts = [?parts ! 0, ?parts ! 1]"
    by (cases ?parts; cases "tl ?parts"; auto)
  show ?thesis
    using p st td validate_fields[OF v] r0 parts by auto
qed

text \<open>
  Every record comes from a well-formed entry, so an entry that is not well formed is
  skipped, and there are at most as many records as well-formed entries.
\<close>

lemma record_well_formed:
  assumes "parse_single_repository lib cfg article = Some r"
  shows "well_formed article"
proof -
  from parse_single_SomeD[OF assms] obtain path where
    "title_path article = Some path"
    "split (CHR ''/'') (strip_char (CHR ''/'') path) = [owner r, repo_name r]"
    by blast
  then show ?thesis by (simp add: well_formed_def)
qed

lemma length_map_filter:
  "length (List.map_filter f xs) = length (filter (\<lambda>x. f x \<noteq> None) xs)"
  by (simp add: List.map_filter_def)

lemma length_filter_mono:
  "(\<And>x. P x \<Longrightarrow> Q x) \<Longrightarrow> length (filter P xs) \<le> length (filter Q xs)"
  by (induction xs) auto

lemma malformed_entries_skipped:
  "(\<not> well_formed article \<longrightarrow> parse_single_repository lib cfg article = None) \<and>
   length (parse_repositories lib cfg html_content)
     \<le> length (filter well_formed (repo_articles (BeautifulSoup lib html_content)))"
proof
  show "\<not> well_formed article \<longrightarrow> parse_single_repository lib cfg article = None"
    using record_well_formed[of lib cfg article] by (cases "parse_single_repository lib cfg article") auto
  have "length (filter (\<lambda>a. parse_single_repository lib cfg a \<noteq> None)
                  (repo_articles (BeautifulSoup lib html_content)))
      \<le> length (filter well_formed (repo_articles (BeautifulSoup lib html_content)))"
    by (rule length_filter_mono) (auto dest: record_well_formed)
  then show "length (parse_repositories lib cfg html_content)
     \<le> length (filter well_formed (repo_articles (BeautifulSoup lib html_content)))"
    by (simp add: parse_repositories_def parse_soup_eq length_map_filter)
qed


lemma parse_repositories_period:
  assumes "r \<in> set (parse_repositories lib cfg html_content)"
  shows "period_stars r = stars_today r \<and>
         (\<exists>article \<in> set (repo_articles (BeautifulSoup lib html_content)).
            parse_single_repository lib cfg article = Some r \<and>
            parse_stars_today article = Inr (stars_today r))"
proof -
  from assms obtain a where a: "a \<in> set (repo_articles (BeautifulSoup lib html_content))"
    and r: "parse_single_repository lib cfg a = Some r"
    by (auto simp: parse_repositories_def in_parse_soup)
  from parse_single_SomeD[OF r] a r show ?thesis by auto
qed


section \<open>Properties of the text functions\<close>

lemma split_not_Nil: "split c s \<noteq> []"
  by (induction s) (auto split: list.splits)

lemma split_single: "split c s = [p] \<Longrightarrow> s = p"
  by (induction s arbitrary: p) (auto split: if_splits list.splits simp: split_not_Nil)

lemma split_two: "split c s = [p, q] \<Longrightarrow> s = p @ c # q"
proof (induction s arbitrary: p)
  case Nil
  then show ?case by simp
next
  case (Cons x xs)
  show ?case
  proof (cases "x = c")
    case True
    with Cons.prems have "p = []" "split c xs = [q]" by auto
    with True split_single[of c xs q] show ?thesis by simp
  next
    case False
    with Cons.prems obtain p' where "p = x # p'" "split c xs = [p', q]"
      by (auto split: list.splits)
    with Cons.IH[of p'] show ?thesis by simp
  qed
qed

lemma dropWhile_last: "dropWhile P xs \<noteq> [] \<Longrightarrow> last (dropWhile P xs) = last xs"
  by (induction xs) (auto split: if_splits)

lemma strip_where_ends:
  assumes "strip_where P s \<noteq> []"
  shows "\<not> P (hd (strip_where P s))" "\<not> P (last (strip_where P s))"
proof -
  let ?u = "dropWhile P s"
  let ?v = "dropWhile P (rev ?u)"
  from assms have v: "?v \<noteq> []" by (simp add: strip_where_def)
  have u: "?u \<noteq> []"
  proof
    assume a: "?u = []"
    have "?v = []" unfolding a by simp
    with v show False by contradiction
  qed
  have "hd (strip_where P s) = last ?v"
    using v by (simp add: strip_where_def hd_rev)
  also have "\<dots> = last (rev ?u)" using v by (rule dropWhile_last)
  also have "\<dots> = hd ?u" using u by (simp add: last_rev)
  finally show "\<not> P (hd (strip_where P s))"
    using u hd_dropWhile[of P s] by simp
  have "last (strip_where P s) = hd ?v"
    using v by (simp add: strip_where_def last_rev)
  then show "\<not> P (last (strip_where P s))"
    using v hd_dropWhile[of P "rev ?u"] by simp
qed

lemma split_strip_two:
  assumes "split c (strip_char c s) = [p, q]"
  shows "p \<noteq> [] \<and> q \<noteq> []"
proof -
  let ?t = "strip_char c s"
  from split_two[OF assms] have t: "?t = p @ c # q" .
  then have ne: "strip_where (\<lambda>x. x = c) s \<noteq> []" by (simp add: strip_char_def)
  from strip_where_ends[OF ne] t have "hd (p @ c # q) \<noteq> c" "last (p @ c # q) \<noteq> c"
    by (simp_all add: strip_char_def)
  then show ?thesis by (cases p; cases q rule: rev_cases; auto)
qed


section \<open>Signs of the numbers\<close>

lemma code_range: "0 \<le> code c" "code c < 256"
proof -
  have "code c = int (of_char c)" by (simp add: code_def of_nat_of_char)
  then show "0 \<le> code c" "code c < 256" by simp_all
qed

lemma code_minus: "code (CHR ''-'') = 45"
  by (simp add: code_def)

lemma not_in_map:
  assumes "\<And>c. f c = x \<longleftrightarrow> c = x" "x \<notin> set s"
  shows "x \<notin> set (map f s)"
proof
  assume "x \<in> set (map f s)"
  then obtain c where c: "c \<in> set s" "f c = x" by auto
  with assms(1) have "c = x" by simp
  with c(1) assms(2) show False by simp
qed

lemma code_inj: "code c = code d \<longleftrightarrow> c = d"
  by (simp add: code_def)

lemma code_char_of: "0 \<le> n \<Longrightarrow> n < 256 \<Longrightarrow> code (char_of n) = n"
  by (simp add: code_def)

lemma code_lower_char:
  "code (lower_char c) =
     (if (65 \<le> code c \<and> code c \<le> 90) \<or> (192 \<le> code c \<and> code c \<le> 222 \<and> code c \<noteq> 215)
      then code c + 32 else code c)"
  using code_range[of c] by (auto simp: lower_char_def Let_def code_char_of)

lemma lower_char_minus: "lower_char c = CHR ''-'' \<longleftrightarrow> c = CHR ''-''"
proof -
  have "lower_char c = CHR ''-'' \<longleftrightarrow> code (lower_char c) = code (CHR ''-'')"
    by (simp add: code_inj)
  also have "\<dots> \<longleftrightarrow> code c = code (CHR ''-'')"
    unfolding code_minus by (auto simp: code_lower_char)
  finally show ?thesis by (simp add: code_inj)
qed

lemma to_ascii_minus: "to_ascii c = CHR ''-'' \<longleftrightarrow> c = CHR ''-''"
proof (cases "code c \<le> 127")
  case True
  then show ?thesis by (simp add: to_ascii_def)
next
  case False
  then have "c \<noteq> CHR ''-''" using code_minus by auto
  with False show ?thesis by (simp add: to_ascii_def)
qed

lemma foldl_digits_nonneg:
  "0 \<le> n \<Longrightarrow> \<forall>c \<in> set s. isdigit c \<Longrightarrow> 0 \<le> foldl (\<lambda>n c. 10 * n + (code c - 48)) n s"
  by (induction s arbitrary: n) (auto simp: isdigit_def)

lemma digits_value_nonneg: "\<forall>c \<in> set s. isdigit c \<Longrightarrow> 0 \<le> digits_value s"
  by (simp add: digits_value_def foldl_digits_nonneg)

lemma round_half_even_nonneg: "0 \<le> a \<Longrightarrow> 0 < b \<Longrightarrow> 0 \<le> round_half_even a b"
  by (simp add: round_half_even_def Let_def pos_imp_zdiv_nonneg_iff)

lemma round_binary64_nonneg: "0 \<le> a \<Longrightarrow> 0 < b \<Longrightarrow> nonneg (round_binary64 False a b)"
  by (simp add: round_binary64_def Let_def round_half_even_nonneg)

lemma decimal_to_float_nonneg: "0 \<le> n \<Longrightarrow> nonneg (decimal_to_float False n x)"
  by (simp add: decimal_to_float_def round_binary64_nonneg)

lemma parse_decimal_nonneg: "parse_decimal s = Some (n, x) \<Longrightarrow> 0 \<le> n"
proof -
  assume a: "parse_decimal s = Some (n, x)"
  obtain fp r2 where fr: "(case dropWhile isdigit s of
                        [] \<Rightarrow> ([], [])
                      | c # r \<Rightarrow> if c = CHR ''.''
                                 then (takeWhile isdigit r, dropWhile isdigit r)
                                 else ([], dropWhile isdigit s)) = (fp, r2)"
    by (cases "(case dropWhile isdigit s of
                        [] \<Rightarrow> ([], [])
                      | c # r \<Rightarrow> if c = CHR ''.''
                                 then (takeWhile isdigit r, dropWhile isdigit r)
                                 else ([], dropWhile isdigit s))") auto
  then have fp: "\<forall>c \<in> set fp. isdigit c"
    by (auto split: list.splits if_splits dest: set_takeWhileD)
  have ip: "\<forall>c \<in> set (takeWhile isdigit s). isdigit c"
    by (auto dest: set_takeWhileD)
  from a fr have "n = digits_value (takeWhile isdigit s @ fp)"
    by (auto simp: parse_decimal_def Let_def split: if_splits option.splits)
  with fp ip show ?thesis by (auto intro!: digits_value_nonneg)
qed

lemma take_sign_no_minus: "CHR ''-'' \<notin> set s \<Longrightarrow> fst (take_sign s) = False"
  by (cases s) auto

lemma strip_where_subset: "set (strip_where P s) \<subseteq> set s"
proof -
  have "set (dropWhile P (rev (dropWhile P s))) \<subseteq> set (rev (dropWhile P s))"
    by (rule set_dropWhileD[THEN subsetI])
  also have "\<dots> \<subseteq> set s" by (auto dest: set_dropWhileD)
  finally show ?thesis by (simp add: strip_where_def)
qed

lemma py_float_nonneg:
  assumes "py_float t = Inr f" "CHR ''-'' \<notin> set t"
  shows "nonneg f"
proof -
  let ?s = "lower (strip_where c_isspace (remove_char (CHR ''_'') (map to_ascii t)))"
  have "CHR ''-'' \<notin> set (map to_ascii t)"
    using to_ascii_minus assms(2) by (rule not_in_map)
  then have "CHR ''-'' \<notin> set (strip_where c_isspace (remove_char (CHR ''_'') (map to_ascii t)))"
    using strip_where_subset[of c_isspace "remove_char (CHR ''_'') (map to_ascii t)"]
    by (auto simp: remove_char_def)
  then have "CHR ''-'' \<notin> set ?s"
    unfolding lower_def using lower_char_minus by (rule not_in_map[rotated])
  then have ns: "fst (take_sign ?s) = False" by (rule take_sign_no_minus)
  obtain b where ts: "take_sign ?s = (False, b)"
    using ns by (cases "take_sign ?s") auto
  from assms(1) ts show ?thesis
    by (auto simp: py_float_def Let_def split: if_splits option.splits
        dest: parse_decimal_nonneg intro: decimal_to_float_nonneg)
qed

lemma float_mul_nonneg: "nonneg f \<Longrightarrow> 0 \<le> k \<Longrightarrow> nonneg (float_mul f k)"
  by (cases f) (auto simp: round_binary64_nonneg)

lemma py_int_nonneg: "nonneg f \<Longrightarrow> py_int f = Inr n \<Longrightarrow> 0 \<le> n"
  by (cases f) (auto simp: sgn_if pos_imp_zdiv_nonneg_iff split: if_splits)

lemma parse_number_nonneg:
  assumes "parse_number t = Inr n" "CHR ''-'' \<notin> set t"
  shows "0 \<le> n"
proof (cases "t = []")
  case True
  with assms show ?thesis by (simp add: parse_number_def)
next
  case False
  let ?s = "lower (remove_char (CHR '','') t)"
  have "CHR ''-'' \<notin> set (remove_char (CHR '','') t)"
    using assms(2) by (simp add: remove_char_def)
  then have s: "CHR ''-'' \<notin> set ?s"
    unfolding lower_def using lower_char_minus by (rule not_in_map[rotated])
  then have b: "CHR ''-'' \<notin> set (butlast ?s)"
    by (auto dest: in_set_butlastD)
  obtain k u where ku: "(if endswith ?s (CHR ''k'') then (1000, butlast ?s)
                else if endswith ?s (CHR ''m'') then (1000000, butlast ?s)
                else (1::int, ?s)) = (k, u)"
    by (cases "(if endswith ?s (CHR ''k'') then (1000, butlast ?s)
                else if endswith ?s (CHR ''m'') then (1000000, butlast ?s)
                else (1::int, ?s))") auto
  then have k: "0 \<le> k" and u: "CHR ''-'' \<notin> set u"
    using s b by (auto split: if_splits)
  show ?thesis
  proof (cases "py_float u")
    case (Inl e)
    with assms(1) False ku show ?thesis
      by (auto simp: parse_number_def Let_def split: error.splits)
  next
    case (Inr f)
    from py_float_nonneg[OF Inr u] k have nn: "nonneg (float_mul f k)"
      by (rule float_mul_nonneg)
    show ?thesis
    proof (cases "py_int (float_mul f k)")
      case (Inl e)
      with assms(1) False ku \<open>py_float u = Inr f\<close> show ?thesis
        by (auto simp: parse_number_def Let_def split: error.splits)
    next
      case (Inr n')
      with assms(1) False ku \<open>py_float u = Inr f\<close> have "n' = n"
        by (auto simp: parse_number_def Let_def)
      with py_int_nonneg[OF nn Inr] show ?thesis by simp
    qed
  qed
qed


section \<open>What the patterns capture and what the counters hold\<close>

lemma rmatch_prefix:
  "r \<in> set (rmatch rx s) \<Longrightarrow> \<exists>p. s = p @ r \<and> set p \<subseteq> regex_chars rx"
proof (induction rx s arbitrary: r rule: rmatch.induct)
  case (1 s)
  then show ?case by simp
next
  case (2 c s)
  then show ?case by (cases s) (auto split: if_splits)
next
  case (3 p s)
  then show ?case by (cases s) (auto split: if_splits)
next
  case (4 a b s)
  from 4(3) obtain r1 where r1: "r1 \<in> set (rmatch a s)" "r \<in> set (rmatch b r1)" by auto
  from 4(1)[OF r1(1)] obtain p1 where p1: "s = p1 @ r1" "set p1 \<subseteq> regex_chars a" by blast
  from 4(2)[OF r1(1) r1(2)] obtain p2 where p2: "r1 = p2 @ r" "set p2 \<subseteq> regex_chars b" by blast
  from p1 p2 have "s = (p1 @ p2) @ r" "set (p1 @ p2) \<subseteq> regex_chars (Seq a b)" by auto
  then show ?case by blast
next
  case (5 a s)
  show ?case
  proof (cases "r = s")
    case True
    then show ?thesis by simp
  next
    case False
    with 5(2) have "r \<in> set (rmatch a s)" by simp
    from 5(1)[OF this] show ?thesis by simp
  qed
next
  case (6 a s)
  show ?case
  proof (cases "r = s")
    case True
    then show ?thesis by simp
  next
    case False
    from 6(3) have "r \<in> set (concat (map (\<lambda>r. if length r < length s then rmatch (Star a) r else [])
                 (rmatch a s)) @ [s])"
      by (simp add: rmatch.simps(6)[of a s])
    with False obtain r1 where r1: "r1 \<in> set (rmatch a s)" "length r1 < length s"
      "r \<in> set (rmatch (Star a) r1)"
      by (auto split: if_splits)
    from 6(1)[OF r1(1)] obtain p1 where p1: "s = p1 @ r1" "set p1 \<subseteq> regex_chars a" by blast
    from 6(2)[OF r1(1) r1(2) r1(3)] obtain p2 where
      p2: "r1 = p2 @ r" "set p2 \<subseteq> regex_chars (Star a)" by blast
    from p1 p2 have "s = (p1 @ p2) @ r" "set (p1 @ p2) \<subseteq> regex_chars (Star a)" by auto
    then show ?thesis by blast
  qed
qed

lemma match_group_chars:
  assumes "g \<in> set (match_group Eps grp post s)"
  shows "set g \<subseteq> regex_chars grp"
proof -
  from assms obtain r1 where r1: "r1 \<in> set (rmatch grp s)" "g = take (length s - length r1) s"
    by (auto simp: match_group_def)
  from rmatch_prefix[OF r1(1)] obtain p where p: "s = p @ r1" "set p \<subseteq> regex_chars grp"
    by blast
  from p(1) r1(2) have "g = p" by simp
  with p(2) show ?thesis by simp
qed

lemma re_search_chars:
  "re_search Eps grp post s = Some g \<Longrightarrow> set g \<subseteq> regex_chars grp"
proof (induction s)
  case Nil
  then have "g \<in> set (match_group Eps grp post [])"
    by (auto split: list.splits)
  then show ?case by (rule match_group_chars)
next
  case (Cons c cs)
  show ?case
  proof (cases "match_group Eps grp post (c # cs)")
    case Nil
    with Cons show ?thesis by simp
  next
    case (Cons g' gs)
    with Cons.prems have "g \<in> set (match_group Eps grp post (c # cs))" by simp
    then show ?thesis by (rule match_group_chars)
  qed
qed

lemma digits_group_chars: "regex_chars digits_group = {c. isdigit c} \<union> {CHR '',''}"
  by (auto simp: digits_group_def Plus_def)

lemma isdigit_minus: "\<not> isdigit (CHR ''-'')"
  by (simp add: isdigit_def code_def)

lemma parse_stars_today_nonneg:
  assumes "parse_stars_today article = Inr n"
  shows "0 \<le> n"
proof (cases "find_first (descendants article)
             (\<lambda>n. is_tag ''span'' n \<and> has_class ''d-inline-block float-sm-right'' n)")
  case None
  with assms show ?thesis by (simp add: parse_stars_today_def)
next
  case (Some star_element)
  show ?thesis
  proof (cases "re_search Eps digits_group stars_today_tail (get_text star_element)")
    case None
    with assms Some show ?thesis by (simp add: parse_stars_today_def)
  next
    case (Some g)
    from re_search_chars[OF Some] have "CHR ''-'' \<notin> set g"
      using isdigit_minus by (auto simp: digits_group_chars)
    moreover from assms Some \<open>find_first _ _ = Some star_element\<close>
    have "parse_number g = Inr n" by (simp add: parse_stars_today_def)
    ultimately show ?thesis using parse_number_nonneg by blast
  qed
qed

lemma parse_stars_today_cases:
  "parse_stars_today article =
     (case counter_element article of
        None \<Rightarrow> Inr 0
      | Some el \<Rightarrow>
          (case re_search Eps digits_group stars_today_tail (get_text el) of
             None \<Rightarrow> Inr 0
           | Some number \<Rightarrow> parse_number number))"
  by (simp add: parse_stars_today_def counter_element_def Let_def split: option.splits)

text \<open>
  The loop of \<open>_parse_stats\<close> keeps, for the stars, the value of the last link to
  \<open>/stargazers\<close>, and for the forks the value of the last other link to \<open>/forks\<close>.
\<close>

lemma parse_stats_links_last:
  "parse_stats_links links s f = Inr (s', f') \<Longrightarrow>
     (let sl = filter (\<lambda>l. contains (get_or_empty (snd l) ''href'') ''/stargazers'') links;
          fl = filter (\<lambda>l. \<not> contains (get_or_empty (snd l) ''href'') ''/stargazers'' \<and>
                            contains (get_or_empty (snd l) ''href'') ''/forks'') links
      in (if sl = [] then s' = s else parse_number (get_text (last sl)) = Inr s') \<and>
         (if fl = [] then f' = f else parse_number (get_text (last fl)) = Inr f'))"
proof (induction links arbitrary: s f)
  case Nil
  then show ?case by simp
next
  case (Cons l links)
  let ?href = "get_or_empty (snd l) ''href''"
  show ?case
  proof (cases "contains ?href ''/stargazers''")
    case True
    with Cons.prems obtain n where n: "parse_number (get_text l) = Inr n"
      "parse_stats_links links n f = Inr (s', f')"
      by (auto simp: Let_def split: sum.splits)
    from Cons.IH[OF n(2)] n(1) True show ?thesis by (auto simp: Let_def split: if_splits)
  next
    case False
    show ?thesis
    proof (cases "contains ?href ''/forks''")
      case True
      with Cons.prems False obtain n where n: "parse_number (get_text l) = Inr n"
        "parse_stats_links links s n = Inr (s', f')"
        by (auto simp: Let_def split: sum.splits)
      from Cons.IH[OF n(2)] n(1) True False show ?thesis
        by (auto simp: Let_def split: if_splits)
    next
      case True': False
      with Cons.prems False have "parse_stats_links links s f = Inr (s', f')"
        by (simp add: Let_def)
      from Cons.IH[OF this] False True' show ?thesis by (auto simp: Let_def split: if_splits)
    qed
  qed
qed

lemma parse_stats_last:
  assumes "parse_stats article = Inr (s, f)"
  shows "(if stargazers_links article = [] then s = 0
          else parse_number (get_text (last (stargazers_links article))) = Inr s) \<and>
         (if forks_links article = [] then f = 0
          else parse_number (get_text (last (forks_links article))) = Inr f)"
  using parse_stats_links_last[of "stat_links article" 0 0 s f] assms
  by (simp add: parse_stats_def stargazers_links_def forks_links_def Let_def)


section \<open>The number parser and its reference\<close>

lemma truncate_of_int: "truncate (of_int k) = k"
  by (simp add: truncate_def)

lemma py_int_truncate: "py_int (Finite m e) = Inr (truncate (float_value m e))"
proof (cases "0 \<le> e")
  case True
  have fv: "float_value m e = of_int (m * 2 ^ nat e)"
    using True by (simp add: float_value_def)
  have "truncate (float_value m e) = m * 2 ^ nat e"
    unfolding fv by (rule truncate_of_int)
  then show ?thesis using True by simp
next
  case False
  let ?d = "(2::int) ^ nat (- e)"
  have d: "0 < ?d" by simp
  have fv: "float_value m e = of_int m / of_int ?d"
    using False by (simp add: float_value_def)
  show ?thesis
  proof (cases "0 \<le> m")
    case True
    then have "(0::rat) \<le> of_int m / of_int ?d" by simp
    then have "truncate (float_value m e) = m div ?d"
      unfolding fv truncate_def by (simp only: if_True floor_divide_of_int_eq)
    moreover have "sgn m * (\<bar>m\<bar> div ?d) = m div ?d"
      using True by (cases "m = 0") (simp_all add: sgn_if)
    ultimately show ?thesis using False by simp
  next
    case m: False
    then have neg: "\<not> (0::rat) \<le> of_int m / of_int ?d"
      using d by (simp add: divide_less_0_iff not_le)
    have "\<lceil>(of_int m :: rat) / of_int ?d\<rceil> = - \<lfloor>(of_int (- m) :: rat) / of_int ?d\<rfloor>"
      by (simp add: ceiling_def)
    also have "\<dots> = - ((- m) div ?d)"
      by (simp only: floor_divide_of_int_eq)
    finally have "truncate (float_value m e) = - ((- m) div ?d)"
      unfolding fv truncate_def using neg by (simp only: if_False)
    moreover have "sgn m * (\<bar>m\<bar> div ?d) = - ((- m) div ?d)"
      using m by (simp add: sgn_if)
    ultimately show ?thesis using False by simp
  qed
qed

lemma lower_char_eq_code: "lower_char c = d \<longleftrightarrow> code (lower_char c) = code d"
  by (simp add: code_inj)

lemma code_consts:
  "code (CHR ''_'') = 95" "code (CHR ''k'') = 107" "code (CHR ''K'') = 75"
  "code (CHR ''m'') = 109" "code (CHR ''M'') = 77" "code (CHR '','') = 44"
  "code (CHR '' '') = 32" "code (CHR ''?'') = 63" "code (CHR 0x00) = 0"
  by (simp_all add: code_def)

lemma char_eq_code: "c = d \<longleftrightarrow> code c = code d"
  by (simp add: code_inj)

lemma lower_char_underscore: "lower_char c = CHR ''_'' \<longleftrightarrow> c = CHR ''_''"
  unfolding lower_char_eq_code char_eq_code[of c] code_consts
  by (auto simp: code_lower_char)

lemma lower_char_comma: "lower_char c = CHR '','' \<longleftrightarrow> c = CHR '',''"
  unfolding lower_char_eq_code char_eq_code[of c] code_consts
  by (auto simp: code_lower_char)

lemma lower_char_k: "lower_char c = CHR ''k'' \<longleftrightarrow> c = CHR ''k'' \<or> c = CHR ''K''"
  unfolding lower_char_eq_code char_eq_code[of c] code_consts
  by (auto simp: code_lower_char)

lemma lower_char_m: "lower_char c = CHR ''m'' \<longleftrightarrow> c = CHR ''m'' \<or> c = CHR ''M''"
  unfolding lower_char_eq_code char_eq_code[of c] code_consts
  by (auto simp: code_lower_char)

lemma isdigit_lower_char: "isdigit (lower_char c) = isdigit c"
  by (auto simp: isdigit_def code_lower_char)

lemma c_isspace_lower_char: "c_isspace (lower_char c) = c_isspace c"
  by (auto simp: c_isspace_def code_lower_char)

lemma isspace_lower_char: "isspace (lower_char c) = isspace c"
  by (auto simp: isspace_def Let_def code_lower_char)

lemma lower_char_idem: "lower_char (lower_char c) = lower_char c"
  unfolding lower_char_eq_code by (auto simp: code_lower_char)

lemma lower_char_fixed: "lower_char (CHR '' '') = CHR '' ''" "lower_char (CHR ''?'') = CHR ''?''"
  "lower_char (CHR 0x00) = CHR 0x00"
  unfolding lower_char_eq_code by (simp_all add: code_lower_char code_consts)

lemma to_ascii_lower_char: "to_ascii (lower_char c) = lower_char (to_ascii c)"
proof (cases "code c \<le> 127")
  case True
  then have "code (lower_char c) \<le> 127" by (auto simp: code_lower_char)
  with True show ?thesis by (simp add: to_ascii_def)
next
  case False
  then have "\<not> code (lower_char c) \<le> 127" by (auto simp: code_lower_char)
  with False show ?thesis
    by (simp add: to_ascii_def isspace_lower_char lower_char_fixed)
qed

lemma lower_idem: "lower (lower s) = lower s"
  by (simp add: lower_def lower_char_idem)

lemma to_ascii_lower: "map to_ascii (lower s) = lower (map to_ascii s)"
  by (simp add: lower_def to_ascii_lower_char)

lemma underscores_ok_lower:
  "underscores_ok (lower_char prev) (lower s) = underscores_ok prev s"
  by (induction s arbitrary: prev)
     (simp_all add: lower_def lower_char_underscore isdigit_lower_char)

lemma remove_char_lower:
  "lower_char ch = ch \<Longrightarrow> (\<And>c. lower_char c = ch \<longleftrightarrow> c = ch) \<Longrightarrow>
     remove_char ch (lower s) = lower (remove_char ch s)"
  by (simp add: remove_char_def lower_def filter_map comp_def)

lemma strip_where_lower:
  assumes "\<And>c. P (lower_char c) = P c"
  shows "strip_where P (lower s) = lower (strip_where P s)"
proof -
  have P: "P \<circ> lower_char = P" by (rule ext) (simp add: assms)
  show ?thesis
    by (simp add: strip_where_def lower_def dropWhile_map rev_map P)
qed

lemma py_float_lower: "py_float (lower s) = py_float s"
proof -
  let ?A = "map to_ascii s"
  have u: "underscores_ok (CHR 0x00) (lower ?A) = underscores_ok (CHR 0x00) ?A"
    using underscores_ok_lower[of "CHR 0x00" ?A] by (simp add: lower_char_fixed)
  have "lower (strip_where c_isspace (remove_char (CHR ''_'') (lower ?A)))
      = lower (strip_where c_isspace (remove_char (CHR ''_'') ?A))"
    by (simp add: remove_char_lower lower_char_underscore strip_where_lower
        c_isspace_lower_char lower_idem)
  with u show ?thesis
    by (simp add: py_float_def to_ascii_lower)
qed

lemma endswith_lower_k:
  "endswith (lower s) (CHR ''k'') \<longleftrightarrow> s \<noteq> [] \<and> (last s = CHR ''k'' \<or> last s = CHR ''K'')"
  by (auto simp: endswith_def lower_def last_map lower_char_k)

lemma endswith_lower_m:
  "endswith (lower s) (CHR ''m'') \<longleftrightarrow> s \<noteq> [] \<and> (last s = CHR ''m'' \<or> last s = CHR ''M'')"
  by (auto simp: endswith_def lower_def last_map lower_char_m)

lemma butlast_lower: "butlast (lower s) = lower (butlast s)"
  by (simp add: lower_def map_butlast)

lemma py_float_error: "py_float t = Inl e \<Longrightarrow> e = ValueError"
  by (auto simp: py_float_def Let_def split: if_splits option.splits prod.splits)

lemma py_float_Nil: "py_float [] = Inl ValueError"
  by code_simp

text \<open>
  The parser has the shape of the reference: the same separators stripped, the same
  suffixes with the same factors, 0 for a numeral that is rejected, and truncation.
  What differs is the arithmetic: the numeral becomes a float and the product is the
  rounded product of floats, which may be an infinity or not a number.
\<close>

lemma number_of_float:
  "(case py_int (float_mul f k) of
      Inl ValueError \<Rightarrow> Inr 0 | Inl TypeError \<Rightarrow> Inr 0 | Inl e \<Rightarrow> Inl e | Inr n \<Rightarrow> Inr n)
   = (case float_mul f k of
        Finite m e \<Rightarrow> Inr (truncate (float_value m e))
      | Infinite neg \<Rightarrow> Inl OverflowError
      | NaN \<Rightarrow> Inr 0)"
  by (cases "float_mul f k") (simp_all add: py_int_truncate del: py_int.simps(1))

lemma parse_number_shape:
  "parse_number text =
     (let (factor, numeral) = spec_suffix (remove_char (CHR '','') text)
      in case py_float numeral of
           Inl e \<Rightarrow> Inr 0
         | Inr f \<Rightarrow>
             (case float_mul f factor of
                Finite m e \<Rightarrow> Inr (truncate (float_value m e))
              | Infinite neg \<Rightarrow> Inl OverflowError
              | NaN \<Rightarrow> Inr 0))"
proof (cases "text = []")
  case True
  then show ?thesis
    by (simp add: parse_number_def spec_suffix_def remove_char_def py_float_Nil)
next
  case False
  let ?c = "remove_char (CHR '','') text"
  obtain k u where ku: "spec_suffix ?c = (k, u)" by (cases "spec_suffix ?c")
  have code_side: "(if endswith (lower ?c) (CHR ''k'') then (1000, butlast (lower ?c))
                else if endswith (lower ?c) (CHR ''m'') then (1000000, butlast (lower ?c))
                else (1, lower ?c)) = (k, lower u)"
    using ku by (auto simp: spec_suffix_def endswith_lower_k endswith_lower_m butlast_lower
        split: if_splits)
  show ?thesis
  proof (cases "py_float u")
    case (Inl e)
    then have "e = ValueError" by (rule py_float_error)
    with Inl False ku code_side show ?thesis
      by (simp add: parse_number_def Let_def py_float_lower)
  next
    case (Inr f)
    with False ku code_side number_of_float[of f k] show ?thesis
      by (simp add: parse_number_def Let_def py_float_lower)
  qed
qed

text \<open>A text that \<open>float\<close> rejects gives 0.\<close>

lemma parse_number_unparseable:
  assumes "unparseable text"
  shows "parse_number text = Inr 0"
proof (cases "text = []")
  case True
  then show ?thesis by (simp add: parse_number_def)
next
  case False
  let ?s = "lower (remove_char (CHR '','') text)"
  from assms obtain e where e: "py_float (float_argument text) = Inl e"
    by (cases "py_float (float_argument text)") (auto simp: unparseable_def)
  then have v: "py_float (float_argument text) = Inl ValueError"
    using py_float_error by blast
  show ?thesis
  proof (cases "endswith ?s (CHR ''k'') \<or> endswith ?s (CHR ''m'')")
    case True
    with v have "py_float (butlast ?s) = Inl ValueError"
      by (simp add: float_argument_def Let_def)
    with True False show ?thesis
      by (auto simp: parse_number_def Let_def)
  next
    case no: False
    with v have "py_float ?s = Inl ValueError"
      by (simp add: float_argument_def Let_def)
    with no False show ?thesis
      by (auto simp: parse_number_def Let_def)
  qed
qed


section \<open>Properties of the fetch loop\<close>

lemma fetch_page_world:
  "snd (fetch_page lib cfg u w) =
     w\<lparr>trace := trace w @
          [Sleep (random_uniform lib (draws w + 1) (min_delay cfg) (max_delay cfg)),
           Get u (Some (random_choice lib (draws w) user_agents))],
       draws := draws w + 2, requests := requests w + 1\<rparr>"
  by (simp add: fetch_page_def Let_def split: sum.splits)

lemma fetch_page_InrD:
  assumes "fetch_page lib cfg u w = (Inr html, w1)"
  shows "\<exists>resp. session_get lib (requests w) u (Some (random_choice lib (draws w) user_agents))
            = Inr resp \<and> status resp = 200 \<and> body resp = html"
  using assms by (auto simp: fetch_page_def Let_def split: sum.splits if_splits)

lemma fetch_attempts_InrD:
  "fetch_attempts lib cfg u limit k w = (Inr rs, w') \<Longrightarrow> int k < max_retries cfg \<Longrightarrow>
     \<exists>w0 html. fetch_page lib cfg u w0 = (Inr html, w') \<and>
       rs = apply_limit limit (parse_repositories lib cfg html)"
proof (induction lib cfg u limit k w rule: fetch_attempts.induct)
  case (1 lib cfg u limit attempt w)
  obtain res w1 where fp: "fetch_page lib cfg u w = (res, w1)"
    by (cases "fetch_page lib cfg u w")
  show ?case
  proof (cases res)
    case (Inr html)
    with 1(2,3) fp show ?thesis
      by (auto simp: fetch_attempts.simps[of lib cfg u limit attempt w])
  next
    case (Inl e)
    show ?thesis
    proof (cases "int attempt < max_retries cfg - 1")
      case True
      show ?thesis
      proof (cases "base_delay cfg attempt")
        case raised: (Inl overflow)
        with 1(2,3) fp Inl True show ?thesis
          by (simp add: fetch_attempts.simps[of lib cfg u limit attempt w])
      next
        case base: (Inr b)
        with 1(2,3) fp Inl True
        have "fetch_attempts lib cfg u limit (attempt + 1)
                (w1\<lparr>trace := trace w1 @
                       [Sleep (float_times b
                          (random_uniform lib (draws w1) (Finite 1 (- 1)) (Finite 3 (- 1))))],
                     draws := draws w1 + 1\<rparr>) = (Inr rs, w')"
          by (simp add: fetch_attempts.simps[of lib cfg u limit attempt w] Let_def)
        moreover from True have "int (attempt + 1) < max_retries cfg" by simp
        ultimately show ?thesis
          using 1(1)[OF 1(3) fp[symmetric] Inl True base refl refl refl] by blast
      qed
    next
      case False
      with 1(2,3) fp Inl show ?thesis
        by (simp add: fetch_attempts.simps[of lib cfg u limit attempt w])
    qed
  qed
qed



lemma fetch_page_fails:
  assumes "\<forall>k ua. case session_get lib k u ua of Inl e \<Rightarrow> True | Inr resp \<Rightarrow> status resp \<noteq> 200"
  shows "\<exists>e. fst (fetch_page lib cfg u w) = Inl e"
proof -
  let ?ua = "Some (random_choice lib (draws w) user_agents)"
  from assms have "case session_get lib (requests w) u ?ua of
      Inl e \<Rightarrow> True | Inr resp \<Rightarrow> status resp \<noteq> 200" by blast
  then show ?thesis
    by (auto simp: fetch_page_def Let_def split: sum.splits)
qed

text \<open>The float of a power of two: there is one up to \<open>2 ^ 1023\<close> and none beyond.\<close>

lemma bitlen_pow2: "bitlen (2 ^ n) = int n + 1"
proof (induction n)
  case 0
  show ?case by (simp add: bitlen.simps[of 1] bitlen.simps[of 0])
next
  case (Suc n)
  have "bitlen (2 ^ Suc n) = 1 + bitlen (2 ^ Suc n div 2)"
    by (subst bitlen.simps) simp
  with Suc show ?case by simp
qed

lemma floor_log2_pow2: "floor_log2 (2 ^ n) 1 = int n"
  using bitlen_pow2[of n] bitlen_pow2[of 0] by (simp add: floor_log2_def)

lemma round_half_even_multiple: "0 < b \<Longrightarrow> round_half_even (q * b) b = q"
  by (simp add: round_half_even_def)

lemma float_of_int_pow2:
  "float_of_int (2 ^ n) =
     (if n \<le> 1023 then Inr (Finite (2 ^ 52) (int n - 52)) else Inl OverflowError)"
proof -
  have m: "(if 0 \<le> int n - 52 then round_half_even (2 ^ n) (1 * 2 ^ nat (int n - 52))
            else round_half_even (2 ^ n * 2 ^ nat (- (int n - 52))) 1) = 2 ^ 52"
  proof (cases "52 \<le> n")
    case True
    then have "(2::int) ^ n = 2 ^ (52 + (n - 52))" by simp
    then have "(2::int) ^ n = 2 ^ 52 * 2 ^ (n - 52)"
      by (simp only: power_add)
    moreover have "nat (int n - 52) = n - 52" by simp
    ultimately show ?thesis
      using True round_half_even_multiple[of "2 ^ (n - 52)" "2 ^ 52"] by simp
  next
    case False
    then have "nat (- (int n - 52)) = 52 - n" by simp
    moreover from False have "(2::int) ^ 52 = 2 ^ (n + (52 - n))" by simp
    then have "(2::int) ^ n * 2 ^ (52 - n) = 2 ^ 52"
      by (simp only: power_add)
    ultimately show ?thesis
      using False round_half_even_multiple[of 1 "2 ^ 52"] by simp
  qed
  have e: "max (floor_log2 (2 ^ n) 1) (- 1022) = int n"
    by (simp add: floor_log2_pow2)
  have "round_binary64 False (2 ^ n) 1 =
          (if 1023 < int n then Infinite False else Finite (2 ^ 52) (int n - 52))"
    unfolding round_binary64_def Let_def e m by simp
  then show ?thesis by (simp add: float_of_int_def)
qed

lemma base_delay_cases:
  "base_delay cfg i =
     (if i \<le> 1023 then Inr (float_times (request_delay cfg) (Finite (2 ^ 52) (int i - 52)))
      else Inl OverflowError)"
  by (simp add: base_delay_def float_of_int_pow2)

text \<open>One attempt that fails and is neither the last nor beyond the floats.\<close>

lemma fetch_attempts_retry:
  assumes "fetch_page lib cfg u w = (Inl e, w1)" "int k < max_retries cfg - 1" "k \<le> 1023"
  shows "\<exists>w2. fetch_attempts lib cfg u limit k w = fetch_attempts lib cfg u limit (k + 1) w2 \<and>
           requests w2 = requests w1"
proof -
  let ?w2 = "w1\<lparr>trace := trace w1 @
                 [Sleep (float_times
                           (float_times (request_delay cfg) (Finite (2 ^ 52) (int k - 52)))
                           (random_uniform lib (draws w1) (Finite 1 (- 1)) (Finite 3 (- 1))))],
               draws := draws w1 + 1\<rparr>"
  from assms have "fetch_attempts lib cfg u limit k w = fetch_attempts lib cfg u limit (k + 1) ?w2"
    by (simp add: fetch_attempts.simps[of lib cfg u limit k w] base_delay_cases Let_def)
  moreover have "requests ?w2 = requests w1" by simp
  ultimately show ?thesis by blast
qed

text \<open>
  With every request failing and at most 1025 attempts, the loop makes as many requests
  as attempts are left, and raises the error of the last one.
\<close>

lemma fetch_attempts_exhaust:
  assumes fail: "\<forall>k ua. case session_get lib k u ua of
                     Inl e \<Rightarrow> True | Inr resp \<Rightarrow> status resp \<noteq> 200"
  shows "max_retries cfg = int (k + Suc n) \<Longrightarrow> k + n \<le> 1024 \<Longrightarrow>
     \<exists>e w0 w'. fetch_attempts lib cfg u limit k w = (Inl e, w') \<and>
       fetch_page lib cfg u w0 = (Inl e, w') \<and>
       requests w0 = requests w + n \<and> requests w' = requests w + Suc n"
proof (induction n arbitrary: k w)
  case 0
  obtain e where e: "fst (fetch_page lib cfg u w) = Inl e"
    using fetch_page_fails[OF fail] by blast
  then obtain w1 where fp: "fetch_page lib cfg u w = (Inl e, w1)"
    by (cases "fetch_page lib cfg u w") auto
  have rq: "requests w1 = requests w + 1"
    using fetch_page_world[of lib cfg u w] fp by simp
  from 0 fp have "fetch_attempts lib cfg u limit k w = (Inl e, w1)"
    by (simp add: fetch_attempts.simps[of lib cfg u limit k w])
  with fp rq show ?case by auto
next
  case (Suc n)
  obtain e where e: "fst (fetch_page lib cfg u w) = Inl e"
    using fetch_page_fails[OF fail] by blast
  then obtain w1 where fp: "fetch_page lib cfg u w = (Inl e, w1)"
    by (cases "fetch_page lib cfg u w") auto
  have rq: "requests w1 = requests w + 1"
    using fetch_page_world[of lib cfg u w] fp by simp
  from Suc.prems have "int k < max_retries cfg - 1" "k \<le> 1023" by simp_all
  from fetch_attempts_retry[OF fp this] obtain w2 where
    step: "fetch_attempts lib cfg u limit k w = fetch_attempts lib cfg u limit (k + 1) w2"
    and w2: "requests w2 = requests w1" by blast
  from Suc.prems have "max_retries cfg = int ((k + 1) + Suc n)" "(k + 1) + n \<le> 1024"
    by simp_all
  from Suc.IH[OF this, of w2] step w2 rq show ?case by auto
qed

text \<open>
  With every request failing and at least 1026 attempts, the loop reaches the attempt
  1024, whose delay has no float: it raises \<open>OverflowError\<close> after 1025 requests.
\<close>

lemma fetch_attempts_overflow:
  assumes fail: "\<forall>k ua. case session_get lib k u ua of
                     Inl e \<Rightarrow> True | Inr resp \<Rightarrow> status resp \<noteq> 200"
    and many: "1026 \<le> max_retries cfg"
  shows "k + n = 1024 \<Longrightarrow>
     fst (fetch_attempts lib cfg u limit k w) = Inl OverflowError \<and>
     requests (snd (fetch_attempts lib cfg u limit k w)) = requests w + Suc n"
proof (induction n arbitrary: k w)
  case 0
  obtain e where e: "fst (fetch_page lib cfg u w) = Inl e"
    using fetch_page_fails[OF fail] by blast
  then obtain w1 where fp: "fetch_page lib cfg u w = (Inl e, w1)"
    by (cases "fetch_page lib cfg u w") auto
  have rq: "requests w1 = requests w + 1"
    using fetch_page_world[of lib cfg u w] fp by simp
  from 0 have k: "k = 1024" by simp
  from many fp have "fetch_attempts lib cfg u limit k w = (Inl OverflowError, w1)"
    unfolding k by (simp add: fetch_attempts.simps[of lib cfg u limit 1024 w] base_delay_cases)
  with rq show ?case by simp
next
  case (Suc n)
  obtain e where e: "fst (fetch_page lib cfg u w) = Inl e"
    using fetch_page_fails[OF fail] by blast
  then obtain w1 where fp: "fetch_page lib cfg u w = (Inl e, w1)"
    by (cases "fetch_page lib cfg u w") auto
  have rq: "requests w1 = requests w + 1"
    using fetch_page_world[of lib cfg u w] fp by simp
  from Suc.prems many have "int k < max_retries cfg - 1" "k \<le> 1023" by simp_all
  from fetch_attempts_retry[OF fp this] obtain w2 where
    step: "fetch_attempts lib cfg u limit k w = fetch_attempts lib cfg u limit (k + 1) w2"
    and w2: "requests w2 = requests w1" by blast
  from Suc.prems have "(k + 1) + n = 1024" by simp
  from Suc.IH[OF this, of w2] step w2 rq show ?case by simp
qed


lemma apply_limit_subset: "set (apply_limit limit xs) \<subseteq> set xs"
  by (auto simp: apply_limit_def dest: in_set_takeD)


section \<open>Evaluations\<close>

lemma tiny_page:
  "parse_repositories (example_lib [entry ''/a/b'' []] timeout) example_cfg ''p''
     = [record_of ''a'' ''b'' 0 0]"
  by code_simp




lemma three_timeouts:
  "fst (fetch_trending (example_lib [] timeout) example_cfg None ''daily'' 25 world0)
     = Inl (ClientError ''timeout'') \<and>
   requests (snd (fetch_trending (example_lib [] timeout) example_cfg None ''daily'' 25 world0))
     = 3"
  by code_simp


lemma one_good_one_bad:
  "parse_repositories (example_lib [entry ''/a/b'' [], entry ''/a'' []] timeout) example_cfg ''p''
     = [record_of ''a'' ''b'' 0 0]"
  by code_simp

lemma negative_stars:
  "parse_repositories (example_lib [entry ''/a/b'' [stargazers ''-5'']] timeout) example_cfg ''p''
     = [record_of ''a'' ''b'' (- 5) 0]"
  by code_simp


lemma parse_number_examples:
  "parse_number ''1,234'' = Inr 1234"
  "parse_number ''2.3k'' = Inr 2300"
  "parse_number ''1.5m'' = Inr 1500000"
  "parse_number '''' = Inr 0"
  "parse_number ''abc'' = Inr 0"
  "parse_number ''2.9'' = Inr 2"
  by code_simp+

lemma spec_parse_examples:
  "spec_parse ''1,234'' = 1234"
  "spec_parse ''2.3k'' = 2300"
  "spec_parse ''1.5m'' = 1500000"
  "spec_parse '''' = 0"
  "spec_parse ''abc'' = 0"
  "spec_parse ''2.9'' = 2"
  by code_simp+

lemma last_link_wins:
  "parse_repositories
     (example_lib [entry ''/a/b'' [stargazers ''7'', stargazers ''12,345'']] timeout)
     example_cfg ''p''
   = [record_of ''a'' ''b'' 12345 0]"
  by code_simp


lemma counted_page:
  "parse_repositories
     (example_lib [entry ''/a/b'' [stargazers '' 2.3k '', today '' 1,024 stars today '']] timeout)
     example_cfg ''p''
   = [record_of ''a'' ''b'' 2300 1024]"
  by code_simp


section \<open>The claims\<close>

text \<open>
  C1.  The number parser is to match its reference definition: the separators stripped,
  the factor of the suffix applied, the product truncated.  On the five texts of the
  claim it does.  On \<open>32.3k\<close> the reference gives 32300, which is 32.3 times 1,000, an
  integer that truncation leaves as it is; the parser gives 32299, because the float of
  \<open>32.3\<close> lies below 32.3, its product with 1000 rounds to the float just below 32300,
  and \<open>int\<close> truncates that.  Likewise \<open>8.2m\<close> gives 8199999 and not 8200000.
\<close>

theorem parse_number_misses_reference:
  "parse_number ''32.3k'' = Inr 32299 \<and> spec_parse ''32.3k'' = 32300 \<and>
   parse_number ''8.2m'' = Inr 8199999 \<and> spec_parse ''8.2m'' = 8200000"
  by code_simp

text \<open>
  C4.  The number parser is to return an integer for every text and never fail.  On
  the text \<open>inf\<close> it does fail: \<open>float\<close> reads an infinity, \<open>int\<close> raises
  \<open>OverflowError\<close>, and the \<open>except\<close> clause names \<open>ValueError\<close> and \<open>TypeError\<close> only.
\<close>

theorem parse_number_inf_raises:
  "parse_number ''inf'' = Inl OverflowError"
  by code_simp

text \<open>
  C10.  In every record that the extraction emits, \<open>period_stars\<close> equals \<open>stars_today\<close>,
  and both are what \<open>_parse_stars_today\<close> reads from the article of the record.  The
  requested time range is not an input of the extraction, and the two fields are equal
  in every record that \<open>fetch_trending\<close> returns, whatever the range.
\<close>

theorem period_stars_is_stars_today:
  "(r \<in> set (parse_repositories lib cfg html_content) \<longrightarrow>
      period_stars r = stars_today r \<and>
      (\<exists>article \<in> set (repo_articles (BeautifulSoup lib html_content)).
         parse_single_repository lib cfg article = Some r \<and>
         parse_stars_today article = Inr (stars_today r))) \<and>
   (fetch_trending lib cfg lang since limit w = (Inr rs, w') \<longrightarrow> r \<in> set rs \<longrightarrow>
      period_stars r = stars_today r)"
proof (intro conjI impI)
  assume "r \<in> set (parse_repositories lib cfg html_content)"
  from parse_repositories_period[OF this]
  show "period_stars r = stars_today r" 
    and "\<exists>article \<in> set (repo_articles (BeautifulSoup lib html_content)).
         parse_single_repository lib cfg article = Some r \<and>
         parse_stars_today article = Inr (stars_today r)"
    by simp_all
next
  assume f: "fetch_trending lib cfg lang since limit w = (Inr rs, w')" and r: "r \<in> set rs"
  show "period_stars r = stars_today r"
  proof (cases "int 0 < max_retries cfg")
    case True
    with f obtain w0 html where
      "fetch_page lib cfg (build_url cfg lang since) w0 = (Inr html, w')"
      "rs = apply_limit limit (parse_repositories lib cfg html)"
      using fetch_attempts_InrD[of lib cfg "build_url cfg lang since" limit 0 w rs w']
      by (auto simp: fetch_trending_def)
    with r have "r \<in> set (apply_limit limit (parse_repositories lib cfg html))" by simp
    then have "r \<in> set (parse_repositories lib cfg html)"
      using apply_limit_subset[of limit "parse_repositories lib cfg html"] by (rule rev_subsetD)
    from parse_repositories_period[OF this] show ?thesis by simp
  next
    case False
    with f have "rs = []"
      by (simp add: fetch_trending_def
          fetch_attempts.simps[of lib cfg "build_url cfg lang since" limit 0 w])
    with r show ?thesis by simp
  qed
qed

text \<open>The record of a page whose entry shows 1,024 stars today.\<close>

theorem period_stars_is_stars_today_witness:
  "record_of ''a'' ''b'' 2300 1024
     \<in> set (parse_repositories
              (example_lib [entry ''/a/b'' [stargazers '' 2.3k '', today '' 1,024 stars today '']]
                 timeout) example_cfg ''p'') \<and>
   period_stars (record_of ''a'' ''b'' 2300 1024) = 1024 \<and>
   stars_today (record_of ''a'' ''b'' 2300 1024) = 1024"
proof -
  have h: "record_of ''a'' ''b'' 2300 1024
     \<in> set (parse_repositories
              (example_lib [entry ''/a/b'' [stargazers '' 2.3k '', today '' 1,024 stars today '']]
                 timeout) example_cfg ''p'')"
    by (simp add: counted_page)
  from period_stars_is_stars_today[THEN conjunct1, THEN mp, OF h] h
  show ?thesis by (simp add: record_of_def)
qed

text \<open>
  C8.  The connectivity probe sends one request to the base address and returns a
  dictionary for each outcome of it, an exception of the client included: it never
  retries and never raises.  On status 200 \<open>github_accessible\<close> is true; on any other
  status, and on an exception, it is false and \<open>error\<close> is a string.
\<close>

theorem health_check_total:
  assumes "health_check lib cfg w = (result, w')"
  shows "requests w' = requests w + 1 \<and>
         trace w' = trace w @ [Get (github_base_url cfg) None] \<and>
         (case session_get lib (requests w) (github_base_url cfg) None of
            Inr resp \<Rightarrow>
              if status resp = 200
              then map_of result ''github_accessible'' = Some (Bool True)
              else map_of result ''github_accessible'' = Some (Bool False) \<and>
                   map_of result ''error'' = Some (Str (''HTTP '' @ str_int (status resp)))
          | Inl e \<Rightarrow>
              map_of result ''github_accessible'' = Some (Bool False) \<and>
              map_of result ''error'' = Some (Str (str_error e)))"
  using assms by (auto simp: health_check_def Let_def split: sum.splits if_splits)

text \<open>The probe against an address that times out.\<close>

theorem health_check_total_witness:
  "requests (snd (health_check (example_lib [] timeout) example_cfg world0)) = 1 \<and>
   map_of (fst (health_check (example_lib [] timeout) example_cfg world0)) ''github_accessible''
     = Some (Bool False) \<and>
   map_of (fst (health_check (example_lib [] timeout) example_cfg world0)) ''error''
     = Some (Str ''timeout'')"
  using health_check_total[of "example_lib [] timeout" example_cfg world0
      "fst (health_check (example_lib [] timeout) example_cfg world0)"
      "snd (health_check (example_lib [] timeout) example_cfg world0)"]
  by (simp add: example_lib_def timeout_def world0_def example_cfg_def)






text \<open>
  C2.  With \<open>K\<close> attempts that all fail, \<open>fetch_trending\<close> is to make exactly \<open>K\<close>
  requests and then raise the error of the last one.  With 1026 attempts, a delay of
  \<open>0.0\<close> and every request timing out, it makes 1025 requests and raises
  \<open>OverflowError\<close>: after the failed attempt 1024 the \<open>except\<close> block computes
  \<open>self.delay * (2 ** 1024)\<close>, and \<open>2 ** 1024\<close> has no float.  Up to 1025 attempts the
  loop makes as many requests as attempts and raises the error of the last one
  (\<open>fetch_attempts_exhaust\<close>).
\<close>

theorem retry_backoff_overflow:
  "max_retries patient_cfg = 1026 \<and>
   fst (fetch_trending (example_lib [] timeout) patient_cfg None ''daily'' 25 world0)
     = Inl OverflowError \<and>
   requests (snd (fetch_trending (example_lib [] timeout) patient_cfg None ''daily'' 25 world0))
     = 1025"
proof -
  let ?lib = "example_lib [] timeout"
  let ?u = "build_url patient_cfg None ''daily''"
  have fail: "\<forall>k ua. case session_get ?lib k ?u ua of
                         Inl e \<Rightarrow> True | Inr resp \<Rightarrow> status resp \<noteq> 200"
    by (simp add: example_lib_def timeout_def)
  have many: "1026 \<le> max_retries patient_cfg"
    by (simp add: patient_cfg_def)
  have "0 + 1024 = (1024::nat)" by simp
  from fetch_attempts_overflow[OF fail many this, of 25 world0]
  show ?thesis
    by (simp add: fetch_trending_def patient_cfg_def world0_def)
qed

text \<open>
  C6.  The name of every emitted record splits at \<open>/\<close> into exactly its owner and its
  short name, both non-empty, and its URL is the validated join of the base address and
  the title link of its article.  An article without a title link, with a link that does
  not split so, or with a URL that does not validate, gives no record and no error.
\<close>

theorem identity_invariant:
  assumes "r \<in> set (parse_repositories lib cfg html_content)"
  shows "split (CHR ''/'') (name r) = [owner r, repo_name r] \<and>
         owner r \<noteq> [] \<and> repo_name r \<noteq> [] \<and>
         (\<exists>article \<in> set (repo_articles (BeautifulSoup lib html_content)). \<exists>repo_path.
            parse_single_repository lib cfg article = Some r \<and>
            title_path article = Some repo_path \<and>
            name r = strip_char (CHR ''/'') repo_path \<and>
            HttpUrl lib (urljoin lib (github_base_url cfg) repo_path) = Some (url r)) \<and>
         (title_path other = None \<longrightarrow> parse_single_repository lib cfg other = None) \<and>
         (title_path other = Some path \<longrightarrow>
            (length (split (CHR ''/'') (strip_char (CHR ''/'') path)) \<noteq> 2 \<or>
             HttpUrl lib (urljoin lib (github_base_url cfg) path) = None) \<longrightarrow>
            parse_single_repository lib cfg other = None)"
proof -
  from assms obtain a where a: "a \<in> set (repo_articles (BeautifulSoup lib html_content))"
    and r: "parse_single_repository lib cfg a = Some r"
    by (auto simp: parse_repositories_def in_parse_soup)
  from parse_single_SomeD[OF r] obtain p where
    p: "title_path a = Some p"
      "split (CHR ''/'') (strip_char (CHR ''/'') p) = [owner r, repo_name r]"
      "name r = strip_char (CHR ''/'') p"
      "HttpUrl lib (urljoin lib (github_base_url cfg) p) = Some (url r)"
    by blast
  from split_strip_two[OF p(2)] have ne: "owner r \<noteq> []" "repo_name r \<noteq> []" by simp_all
  have d1: "parse_single_repository lib cfg other = None" if "title_path other = None"
    using that by (simp add: parse_single_repository_def parse_single_repository_body_def)
  have d2: "parse_single_repository lib cfg other = None"
    if "title_path other = Some path"
      "length (split (CHR ''/'') (strip_char (CHR ''/'') path)) \<noteq> 2 \<or>
       HttpUrl lib (urljoin lib (github_base_url cfg) path) = None"
  proof (cases "parse_single_repository lib cfg other")
    case None
    then show ?thesis .
  next
    case (Some r')
    from parse_single_SomeD[OF Some] that show ?thesis by auto
  qed
  show ?thesis
    using a r p ne d1 d2 by auto
qed

text \<open>The record of the one-entry page.\<close>

theorem identity_invariant_witness:
  "record_of ''a'' ''b'' 0 0
     \<in> set (parse_repositories (example_lib [entry ''/a/b'' []] timeout) example_cfg ''p'') \<and>
   split (CHR ''/'') (name (record_of ''a'' ''b'' 0 0)) = [''a'', ''b''] \<and>
   owner (record_of ''a'' ''b'' 0 0) \<noteq> [] \<and> repo_name (record_of ''a'' ''b'' 0 0) \<noteq> []"
proof -
  have h: "record_of ''a'' ''b'' 0 0
     \<in> set (parse_repositories (example_lib [entry ''/a/b'' []] timeout) example_cfg ''p'')"
    by (simp add: tiny_page)
  from identity_invariant[OF h] h show ?thesis by (simp add: record_of_def)
qed


text \<open>
  C3.  From a document of \<open>N\<close> well-formed entries and \<open>M\<close> others, the extraction is to
  return exactly \<open>N\<close> records.  An entry that is not well formed is always skipped, and
  nothing is raised (\<open>malformed_entries_skipped\<close>).  But the document whose one entry has
  the title link \<open>/a/b\<close> and a stargazers link with the text \<open>inf\<close> has one well-formed
  entry and gives no record: the number parser raises \<open>OverflowError\<close> on \<open>inf\<close>, and
  \<open>_parse_single_repository\<close> catches it and drops the entry.  With the text \<open>abc\<close>,
  which the number parser turns into 0, the same entry gives its record.
\<close>

theorem extraction_drops_well_formed_entry:
  "map well_formed (repo_articles [entry ''/a/b'' [stargazers ''inf'']]) = [True] \<and>
   parse_repositories (example_lib [entry ''/a/b'' [stargazers ''inf'']] timeout) example_cfg ''p''
     = [] \<and>
   parse_repositories (example_lib [entry ''/a/b'' [stargazers ''abc'']] timeout) example_cfg ''p''
     = [record_of ''a'' ''b'' 0 0]"
  by code_simp

text \<open>
  C9, as stated: the star and fork counts of every emitted record are non-negative.
  A stargazers link with the text \<open>-5\<close> gives a record with \<open>-5\<close> stars.
\<close>

theorem negative_stars_counterexample:
  "parse_repositories (example_lib [entry ''/a/b'' [stargazers ''-5'']] timeout) example_cfg ''p''
     = [record_of ''a'' ''b'' (- 5) 0] \<and>
   stars (record_of ''a'' ''b'' (- 5) 0) = - 5"
  by (simp add: negative_stars) (simp add: record_of_def)

text \<open>
  C9, amended.  Every emitted record comes from an entry of the document, and its
  counters are these.  The stars are 0 when the entry has no link to \<open>/stargazers\<close>, and
  otherwise the number parser's value of the text of the last such link: 0 when that
  text is unparseable, and not below zero when it has no minus sign.  The forks are the
  same with the links to \<open>/forks\<close> that are not links to \<open>/stargazers\<close>.  The period
  stars, which are also \<open>stars_today\<close>, are never below zero: they are 0 when the entry
  has no counter element or the text of the element does not match the pattern, and
  otherwise the number parser's value of the number that the pattern captures.
\<close>

theorem counters_of_record:
  assumes "r \<in> set (parse_repositories lib cfg html_content)"
  shows "\<exists>article \<in> set (repo_articles (BeautifulSoup lib html_content)).
     parse_single_repository lib cfg article = Some r \<and>
     (if stargazers_links article = [] then stars r = 0
      else parse_number (get_text (last (stargazers_links article))) = Inr (stars r) \<and>
           (unparseable (get_text (last (stargazers_links article))) \<longrightarrow> stars r = 0) \<and>
           (CHR ''-'' \<notin> set (get_text (last (stargazers_links article))) \<longrightarrow> 0 \<le> stars r)) \<and>
     (if forks_links article = [] then forks r = 0
      else parse_number (get_text (last (forks_links article))) = Inr (forks r) \<and>
           (unparseable (get_text (last (forks_links article))) \<longrightarrow> forks r = 0) \<and>
           (CHR ''-'' \<notin> set (get_text (last (forks_links article))) \<longrightarrow> 0 \<le> forks r)) \<and>
     0 \<le> period_stars r \<and> stars_today r = period_stars r \<and>
     (case counter_element article of
        None \<Rightarrow> period_stars r = 0
      | Some el \<Rightarrow>
          (case re_search Eps digits_group stars_today_tail (get_text el) of
             None \<Rightarrow> period_stars r = 0
           | Some number \<Rightarrow> parse_number number = Inr (period_stars r)))"
proof -
  from assms obtain a where a: "a \<in> set (repo_articles (BeautifulSoup lib html_content))"
    and r: "parse_single_repository lib cfg a = Some r"
    by (auto simp: parse_repositories_def in_parse_soup)
  from parse_single_SomeD[OF r] have
    st: "parse_stats a = Inr (stars r, forks r)" and
    td: "parse_stars_today a = Inr (period_stars r)" and
    pd: "stars_today r = period_stars r"
    by auto
  have val: "(unparseable t \<longrightarrow> n = 0) \<and> (CHR ''-'' \<notin> set t \<longrightarrow> 0 \<le> n)"
    if "parse_number t = Inr n" for t n
    using that parse_number_unparseable[of t] parse_number_nonneg[of t n] by auto
  have s: "if stargazers_links a = [] then stars r = 0
      else parse_number (get_text (last (stargazers_links a))) = Inr (stars r) \<and>
           (unparseable (get_text (last (stargazers_links a))) \<longrightarrow> stars r = 0) \<and>
           (CHR ''-'' \<notin> set (get_text (last (stargazers_links a))) \<longrightarrow> 0 \<le> stars r)"
    using parse_stats_last[OF st] val by (auto split: if_splits)
  have f: "if forks_links a = [] then forks r = 0
      else parse_number (get_text (last (forks_links a))) = Inr (forks r) \<and>
           (unparseable (get_text (last (forks_links a))) \<longrightarrow> forks r = 0) \<and>
           (CHR ''-'' \<notin> set (get_text (last (forks_links a))) \<longrightarrow> 0 \<le> forks r)"
    using parse_stats_last[OF st] val by (auto split: if_splits)
  have p: "0 \<le> period_stars r" using td by (rule parse_stars_today_nonneg)
  have c: "case counter_element a of
        None \<Rightarrow> period_stars r = 0
      | Some el \<Rightarrow>
          (case re_search Eps digits_group stars_today_tail (get_text el) of
             None \<Rightarrow> period_stars r = 0
           | Some number \<Rightarrow> parse_number number = Inr (period_stars r))"
    using td unfolding parse_stars_today_cases by (auto split: option.splits)
  from a r s f p pd c show ?thesis by blast
qed

text \<open>
  The record of a page whose entry has two links to \<open>/stargazers\<close>, with the texts 7 and
  12,345: the last one counts.
\<close>

theorem counters_of_record_witness:
  "record_of ''a'' ''b'' 12345 0
     \<in> set (parse_repositories
              (example_lib [entry ''/a/b'' [stargazers ''7'', stargazers ''12,345'']] timeout)
              example_cfg ''p'') \<and>
   stars (record_of ''a'' ''b'' 12345 0) = 12345 \<and>
   0 \<le> period_stars (record_of ''a'' ''b'' 12345 0)"
proof -
  have h: "record_of ''a'' ''b'' 12345 0
     \<in> set (parse_repositories
              (example_lib [entry ''/a/b'' [stargazers ''7'', stargazers ''12,345'']] timeout)
              example_cfg ''p'')"
    by (simp add: last_link_wins)
  from counters_of_record[OF h] h show ?thesis by (auto simp: record_of_def)
qed

end
